theory Spec2Isabelle
  imports Main "HOL-Library.AList"
begin

section \<open>Strings as the script uses them\<close>

text \<open>
  JavaScript strings are modelled as \<open>string\<close> (lists of 8-bit characters). The
  helpers below are the string operations of \<^verbatim>\<open>script.js\<close>: \<^verbatim>\<open>startsWith\<close>,
  \<^verbatim>\<open>includes\<close>, \<^verbatim>\<open>trim\<close>, \<^verbatim>\<open>toLowerCase\<close> and the rendering of a number
  inside a template literal.
\<close>

definition startsWith :: "string \<Rightarrow> string \<Rightarrow> bool" where
  "startsWith s p = (take (length p) s = p)"

fun includesStr :: "string \<Rightarrow> string \<Rightarrow> bool" where
  "includesStr [] p = (p = [])"
| "includesStr (c # cs) p = (startsWith (c # cs) p \<or> includesStr cs p)"

definition upperChars :: string where
  "upperChars = ''ABCDEFGHIJKLMNOPQRSTUVWXYZ''"

definition lowerChars :: string where
  "lowerChars = ''abcdefghijklmnopqrstuvwxyz''"

definition digitChars :: string where
  "digitChars = ''0123456789''"

definition isUpper :: "char \<Rightarrow> bool" where
  "isUpper c = (c \<in> set upperChars)"

definition isLower :: "char \<Rightarrow> bool" where
  "isLower c = (c \<in> set lowerChars)"

definition isDigit :: "char \<Rightarrow> bool" where
  "isDigit c = (c \<in> set digitChars)"

definition toLowerChar :: "char \<Rightarrow> char" where
  "toLowerChar c = (case map_of (zip upperChars lowerChars) c of Some l \<Rightarrow> l | None \<Rightarrow> c)"

definition toLowerCase :: "string \<Rightarrow> string" where
  "toLowerCase s = map toLowerChar s"

text \<open>The white space that \<^verbatim>\<open>trim\<close> removes: tab, line feed, vertical tab, form feed,
  carriage return, space and the no-break space.\<close>

definition isSpace :: "char \<Rightarrow> bool" where
  "isSpace c = (c \<in> {CHR 0x09, CHR 0x0A, CHR 0x0B, CHR 0x0C, CHR 0x0D, CHR '' '', CHR 0xA0})"

definition trim :: "string \<Rightarrow> string" where
  "trim s = rev (dropWhile isSpace (rev (dropWhile isSpace s)))"

definition digitChar :: "nat \<Rightarrow> char" where
  "digitChar d = digitChars ! d"

text \<open>The decimal rendering of a non-negative integer, as a template literal prints it.\<close>

function showNat :: "nat \<Rightarrow> string" where
  "showNat n = (if n < 10 then [digitChar n] else showNat (n div 10) @ [digitChar (n mod 10)])"
  by pat_completeness auto
termination
  by (relation "measure id") auto

declare showNat.simps [simp del]

section \<open>Asset file names\<close>

text \<open>
  \<^verbatim>\<open>getImageExtension(url, contentType = '')\<close> first matches the URL against
  \<^verbatim>\<open>/\.(jpg|jpeg|png|gif|webp|svg)(\?.*)?$/i\<close>. The match is searched from the left;
  at a dot the alternatives are tried in their order, and after the extension the input
  must end, or continue with a question mark and no line terminator up to its end.
\<close>

definition knownExtensions :: "string list" where
  "knownExtensions = [''jpg'', ''jpeg'', ''png'', ''gif'', ''webp'', ''svg'']"

definition isLineTerminator :: "char \<Rightarrow> bool" where
  "isLineTerminator c = (c \<in> {CHR 0x0A, CHR 0x0D})"

definition queryTail :: "string \<Rightarrow> bool" where
  "queryTail t = (case t of [] \<Rightarrow> True
                  | c # cs \<Rightarrow> c = CHR ''?'' \<and> \<not> list_ex isLineTerminator cs)"

fun matchExtAt :: "string list \<Rightarrow> string \<Rightarrow> string option" where
  "matchExtAt [] rest = None"
| "matchExtAt (e # es) rest =
     (if toLowerCase (take (length e) rest) = e \<and> queryTail (drop (length e) rest)
      then Some (toLowerCase (take (length e) rest))
      else matchExtAt es rest)"

fun searchExt :: "string \<Rightarrow> string option" where
  "searchExt [] = None"
| "searchExt (c # cs) =
     (if c = CHR ''.'' then (case matchExtAt knownExtensions cs of
                               Some e \<Rightarrow> Some e
                             | None \<Rightarrow> searchExt cs)
      else searchExt cs)"

definition getImageExtension :: "string \<Rightarrow> string \<Rightarrow> string" where
  "getImageExtension url contentType =
     (case searchExt url of
        Some e \<Rightarrow> e
      | None \<Rightarrow>
          if includesStr contentType ''jpeg'' \<or> includesStr contentType ''jpg'' then ''jpg''
          else if includesStr contentType ''png'' then ''png''
          else if includesStr contentType ''gif'' then ''gif''
          else if includesStr contentType ''webp'' then ''webp''
          else if includesStr contentType ''svg'' then ''svg''
          else ''jpg'')"

text \<open>\<^verbatim>\<open>generateImageFilename(companyName, globalId, type, extension)\<close>; the company
  name is accepted and not used.\<close>

definition generateImageFilename :: "string \<Rightarrow> string \<Rightarrow> string \<Rightarrow> string \<Rightarrow> string" where
  "generateImageFilename companyName globalId type extension =
     globalId @ ''_'' @ type @ ''.'' @ extension"

text \<open>\<^verbatim>\<open>product.name.replace(/[^a-zA-Z0-9]/g, '_').toLowerCase()\<close>: the replacement
  comes first, the lowering second.\<close>

definition isAlnum :: "char \<Rightarrow> bool" where
  "isAlnum c = (isLower c \<or> isUpper c \<or> isDigit c)"

definition replaceNonAlnum :: "string \<Rightarrow> string" where
  "replaceNonAlnum s = map (\<lambda>c. if isAlnum c then c else CHR ''_'') s"

definition productSafeName :: "string \<Rightarrow> string" where
  "productSafeName name = toLowerCase (replaceNonAlnum name)"

definition iconFilename :: "string \<Rightarrow> string \<Rightarrow> string \<Rightarrow> string" where
  "iconFilename globalId name extension =
     generateImageFilename [] globalId (''product_'' @ productSafeName name) extension"

text \<open>The sanitisation as the specification words it: lowercase the name, then replace
  every character that is not alphanumeric by an underscore.\<close>

definition spec_sanitize :: "string \<Rightarrow> string" where
  "spec_sanitize name = replaceNonAlnum (toLowerCase name)"

section \<open>Numbers read from the page\<close>

text \<open>
  A JavaScript number obtained from \<^verbatim>\<open>parseInt\<close> is an integer or \<^verbatim>\<open>NaN\<close>. The model
  keeps the integer exactly; the script's numbers are doubles, which agree with it up to
  \<open>2^53\<close>. Comparisons with \<^verbatim>\<open>NaN\<close> are false, and \<^verbatim>\<open>NaN\<close> and \<open>0\<close> are falsy.
\<close>

datatype jsnum = NaN | Num int

fun jsLess :: "jsnum \<Rightarrow> jsnum \<Rightarrow> bool" where
  "jsLess (Num a) (Num b) = (a < b)"
| "jsLess _ _ = False"

fun jsGreaterEq :: "jsnum \<Rightarrow> jsnum \<Rightarrow> bool" where
  "jsGreaterEq (Num a) (Num b) = (a \<ge> b)"
| "jsGreaterEq _ _ = False"

fun jsStrictEq :: "jsnum \<Rightarrow> jsnum \<Rightarrow> bool" where
  "jsStrictEq (Num a) (Num b) = (a = b)"
| "jsStrictEq _ _ = False"

fun jsTruthy :: "jsnum \<Rightarrow> bool" where
  "jsTruthy (Num a) = (a \<noteq> 0)"
| "jsTruthy NaN = False"

fun showNum :: "jsnum \<Rightarrow> string" where
  "showNum NaN = ''NaN''"
| "showNum (Num a) = (if a < 0 then ''-'' @ showNat (nat (- a)) else showNat (nat a))"

definition radixDigits :: "(char \<times> nat) list" where
  "radixDigits = zip ''0123456789abcdef'' [0, 1, 2, 3, 4, 5, 6, 7, 8, 9, 10, 11, 12, 13, 14, 15]"

definition digitValue :: "nat \<Rightarrow> char \<Rightarrow> nat option" where
  "digitValue radix c =
     (case map_of radixDigits (toLowerChar c) of
        None \<Rightarrow> None
      | Some v \<Rightarrow> if v < radix then Some v else None)"

text \<open>The value of the longest prefix of digits of the radix, and whether it is empty.\<close>

fun digitsPrefix :: "nat \<Rightarrow> string \<Rightarrow> nat list" where
  "digitsPrefix radix [] = []"
| "digitsPrefix radix (c # cs) =
     (case digitValue radix c of None \<Rightarrow> [] | Some v \<Rightarrow> v # digitsPrefix radix cs)"

definition digitsValue :: "nat \<Rightarrow> nat list \<Rightarrow> nat" where
  "digitsValue radix ds = foldl (\<lambda>acc d. acc * radix + d) 0 ds"

definition parseMagnitude :: "string \<Rightarrow> nat option" where
  "parseMagnitude s =
     (let (radix, rest) = (if startsWith s ''0x'' \<or> startsWith s ''0X''
                           then (16, drop 2 s) else (10, s));
          ds = digitsPrefix radix rest
      in if ds = [] then None else Some (digitsValue radix ds))"

text \<open>\<^verbatim>\<open>parseInt(text)\<close> without a radix: leading white space, an optional sign, an
  optional hexadecimal prefix, then the longest run of digits; \<^verbatim>\<open>NaN\<close> when there is
  no digit.\<close>

definition parseInt :: "string \<Rightarrow> jsnum" where
  "parseInt text =
     (let s = dropWhile isSpace text;
          (neg, body) = (case s of
                           c # cs \<Rightarrow> if c = CHR ''-'' then (True, cs)
                                     else if c = CHR ''+'' then (False, cs)
                                     else (False, s)
                         | [] \<Rightarrow> (False, s))
      in case parseMagnitude body of
           None \<Rightarrow> NaN
         | Some m \<Rightarrow> Num (if neg then - int m else int m))"

section \<open>The rendered page\<close>

text \<open>
  The browser is outside the script. A rendered listing page is modelled by what the
  script's selectors read from it: the cards in document order, and the elements the
  pagination check queries. An absent element is \<open>None\<close>; an element is represented by
  the attributes and text the script reads.
\<close>

record img_dom =
  src :: "string option"
  alt :: "string option"

record product_dom =
  productLabel :: "string option"
  productIcon :: "img_dom option"

record card_dom =
  titleElement :: "string option"
  industryElement :: "string option"
  anchors :: "string list"
  logoImg :: "img_dom option"
  headerImg :: "img_dom option"
  productElements :: "product_dom list"

record button_dom =
  classList :: "string list"
  ariaDisabled :: "string option"

record document =
  cards :: "card_dom list"
  paginationContainer :: "string list option"
  showValue :: "string option"
  showTotal :: "string option"
  paginationElement :: "string option"
  nextButton :: "button_dom option"

section \<open>Record extraction\<close>

record product =
  name :: string
  icon :: string
  iconAlt :: string
  iconLocal :: "string option"

record story =
  page :: nat
  positionOnPage :: nat
  globalId :: string
  title :: string
  industry :: string
  storyUrl :: string
  logo :: string
  logoLocal :: "string option"
  headerImage :: string
  headerImageAlt :: string
  headerImageLocal :: "string option"
  microsoftProducts :: "product list"
  extractedAt :: string

text \<open>\<^verbatim>\<open>img ? img.getAttribute(a) || '' : ''\<close>\<close>

definition attrOrEmpty :: "img_dom option \<Rightarrow> (img_dom \<Rightarrow> string option) \<Rightarrow> string" where
  "attrOrEmpty img a =
     (case img of None \<Rightarrow> [] | Some i \<Rightarrow> (case a i of None \<Rightarrow> [] | Some v \<Rightarrow> v))"

text \<open>\<^verbatim>\<open>card.querySelector('a[href*="/customers/story/"]')\<close>: the first anchor of the
  card whose \<^verbatim>\<open>href\<close> contains the story path; \<open>anchors\<close> lists the \<^verbatim>\<open>href\<close> values
  of the card's anchors in document order.\<close>

definition storyLink :: "card_dom \<Rightarrow> string option" where
  "storyLink cardEl = find (\<lambda>h. includesStr h ''/customers/story/'') (anchors cardEl)"

text \<open>\<^verbatim>\<open>text.replace(pattern, replacement)\<close> with a string pattern replaces the first
  occurrence.\<close>

fun replaceFirst :: "string \<Rightarrow> string \<Rightarrow> string \<Rightarrow> string" where
  "replaceFirst [] p r = (if p = [] then r else [])"
| "replaceFirst (c # cs) p r =
     (if startsWith (c # cs) p then r @ drop (length p) (c # cs)
      else c # replaceFirst cs p r)"

fun extractProducts :: "product_dom list \<Rightarrow> product list" where
  "extractProducts [] = []"
| "extractProducts (p # ps) =
     (case productLabel p of
        None \<Rightarrow> extractProducts ps
      | Some t \<Rightarrow>
          \<lparr>name = trim t,
           icon = attrOrEmpty (productIcon p) src,
           iconAlt = attrOrEmpty (productIcon p) alt,
           iconLocal = None\<rparr> # extractProducts ps)"

definition mkGlobalId :: "nat \<Rightarrow> nat \<Rightarrow> string" where
  "mkGlobalId pageNum position = ''p'' @ showNat pageNum @ ''_'' @ showNat position"

text \<open>The body of the \<^verbatim>\<open>cards.forEach((card, index) => ...)\<close> callback; \<open>None\<close> when the
  guard \<^verbatim>\<open>titleElement && storyLink\<close> fails. \<open>now\<close> is the clock reading. On this
  representation of a card no step of the callback throws, so its \<^verbatim>\<open>catch\<close> has no
  branch here.\<close>

definition extractCard :: "nat \<Rightarrow> string \<Rightarrow> nat \<Rightarrow> card_dom \<Rightarrow> story option" where
  "extractCard pageNum now index cardEl =
     (case titleElement cardEl of
        None \<Rightarrow> None
      | Some titleText \<Rightarrow>
          (case storyLink cardEl of
             None \<Rightarrow> None
           | Some href \<Rightarrow>
               Some \<lparr>page = pageNum,
                     positionOnPage = index + 1,
                     globalId = mkGlobalId pageNum (index + 1),
                     title = trim titleText,
                     industry = (case industryElement cardEl of
                                   None \<Rightarrow> []
                                 | Some t \<Rightarrow> trim (replaceFirst t ''Industry: '' [])),
                     storyUrl = href,
                     logo = attrOrEmpty (logoImg cardEl) src,
                     logoLocal = None,
                     headerImage = attrOrEmpty (headerImg cardEl) src,
                     headerImageAlt = attrOrEmpty (headerImg cardEl) alt,
                     headerImageLocal = None,
                     microsoftProducts = extractProducts (productElements cardEl),
                     extractedAt = now\<rparr>))"

fun extractFrom :: "nat \<Rightarrow> string \<Rightarrow> nat \<Rightarrow> card_dom list \<Rightarrow> story list" where
  "extractFrom pageNum now index [] = []"
| "extractFrom pageNum now index (cardEl # rest) =
     (case extractCard pageNum now index cardEl of
        None \<Rightarrow> extractFrom pageNum now (index + 1) rest
      | Some s \<Rightarrow> s # extractFrom pageNum now (index + 1) rest)"

definition pageStories :: "nat \<Rightarrow> string \<Rightarrow> document \<Rightarrow> story list" where
  "pageStories pageNum now doc = extractFrom pageNum now 0 (cards doc)"

section \<open>The pagination check\<close>

text \<open>
  \<^verbatim>\<open>paginationText.match(/Page (\d+) of (\d+)/)\<close>: the leftmost place where the text
  reads \<^verbatim>\<open>Page\<close>, a space, a run of digits, \<^verbatim>\<open> of \<close> and a run of digits. Both
  runs are the longest possible; a shorter first run cannot be followed by a space.
\<close>

definition matchAnnouncementAt :: "string \<Rightarrow> (string \<times> string) option" where
  "matchAnnouncementAt s =
     (if startsWith s ''Page '' then
        (let r = drop 5 s; d1 = takeWhile isDigit r; r2 = dropWhile isDigit r
         in if d1 \<noteq> [] \<and> startsWith r2 '' of '' then
              (let d2 = takeWhile isDigit (drop 4 r2)
               in if d2 \<noteq> [] then Some (d1, d2) else None)
            else None)
      else None)"

fun searchAnnouncement :: "string \<Rightarrow> (string \<times> string) option" where
  "searchAnnouncement [] = None"
| "searchAnnouncement (c # cs) =
     (case matchAnnouncementAt (c # cs) of
        Some m \<Rightarrow> Some m
      | None \<Rightarrow> searchAnnouncement cs)"

text \<open>The object returned by the pagination \<^verbatim>\<open>page.evaluate\<close>. \<open>None\<close> is \<^verbatim>\<open>null\<close>.\<close>

record pagination_info =
  hasNext :: bool
  currentPage :: "jsnum option"
  totalPages :: "jsnum option"
  singlePage :: "bool option"
  showingResults :: string
  reason :: string

text \<open>\<^verbatim>\<open>paginationContainer && paginationContainer.classList.contains('d-none')\<close> is
  \<^verbatim>\<open>null\<close> without a container; the script only tests it for truth.\<close>

definition isPaginationHidden :: "document \<Rightarrow> bool" where
  "isPaginationHidden doc =
     (case paginationContainer doc of None \<Rightarrow> False | Some cls \<Rightarrow> ''d-none'' \<in> set cls)"

definition currentShowing :: "document \<Rightarrow> jsnum" where
  "currentShowing doc = (case showValue doc of None \<Rightarrow> Num 0 | Some t \<Rightarrow> parseInt t)"

definition totalResults :: "document \<Rightarrow> jsnum" where
  "totalResults doc = (case showTotal doc of None \<Rightarrow> Num 0 | Some t \<Rightarrow> parseInt t)"

definition allResultsOnOnePage :: "document \<Rightarrow> bool" where
  "allResultsOnOnePage doc =
     (jsStrictEq (currentShowing doc) (totalResults doc) \<and> jsLess (Num 0) (totalResults doc))"

definition paginationText :: "document \<Rightarrow> string" where
  "paginationText doc = (case paginationElement doc of None \<Rightarrow> [] | Some t \<Rightarrow> t)"

text \<open>\<^verbatim>\<open>nextButton && (classList.contains('disabled') || aria-disabled === 'true')\<close>:
  \<^verbatim>\<open>null\<close> when there is no such element.\<close>

definition nextButtonDisabled :: "document \<Rightarrow> bool option" where
  "nextButtonDisabled doc =
     (case nextButton doc of
        None \<Rightarrow> None
      | Some b \<Rightarrow> Some (''disabled'' \<in> set (classList b) \<or> ariaDisabled b = Some ''true''))"

definition showingText :: "document \<Rightarrow> string" where
  "showingText doc = showNum (currentShowing doc) @ '' of '' @ showNum (totalResults doc)"

definition paginationInfo :: "document \<Rightarrow> pagination_info" where
  "paginationInfo doc =
     (if isPaginationHidden doc \<and> allResultsOnOnePage doc then
        \<lparr>hasNext = False,
         currentPage = Some (Num 1),
         totalPages = Some (Num 1),
         singlePage = Some True,
         showingResults = showingText doc,
         reason = ''pagination hidden and all results shown''\<rparr>
      else
        (case searchAnnouncement (paginationText doc) of
           Some (m1, m2) \<Rightarrow>
             \<lparr>hasNext = jsLess (parseInt m1) (parseInt m2),
              currentPage = Some (parseInt m1),
              totalPages = Some (parseInt m2),
              singlePage = Some (jsStrictEq (parseInt m2) (Num 1)),
              showingResults = showingText doc,
              reason = ''pagination announcement''\<rparr>
         | None \<Rightarrow>
             \<lparr>hasNext = (case nextButtonDisabled doc of None \<Rightarrow> True | Some d \<Rightarrow> \<not> d),
              currentPage = None,
              totalPages = None,
              singlePage = nextButtonDisabled doc,
              showingResults = showingText doc,
              reason = ''next button state''\<rparr>))"

section \<open>The page loop\<close>

text \<open>
  The loop variables of the test body. \<open>rendered\<close> and \<open>extracted\<close> are not variables of
  the script: they record, in order, the page numbers that were loaded and the page
  numbers whose cards were handed to the extraction, so that statements about the pages
  visited can be made.
\<close>

record loop_state =
  allStories :: "story list"
  currentPage :: nat
  hasNextPage :: bool
  rendered :: "nat list"
  extracted :: "nat list"

datatype run_error = MissingBaseUrl | RenderFailed | NoStories

definition pageUrl :: "string \<Rightarrow> nat \<Rightarrow> string" where
  "pageUrl baseUrl n = (if n = 1 then baseUrl else baseUrl @ ''&page='' @ showNat n)"

text \<open>The chain of branches after the pagination check: whether the loop goes on to the
  next page.\<close>

definition continues :: "pagination_info \<Rightarrow> nat \<Rightarrow> bool" where
  "continues info cur =
     (if singlePage info = Some True then False
      else if (case pagination_info.totalPages info of
                 None \<Rightarrow> False
               | Some t \<Rightarrow> jsTruthy t \<and> jsGreaterEq (Num (int cur)) t) then False
      else if hasNext info = False then False
      else True)"

definition collect :: "loop_state \<Rightarrow> story list \<Rightarrow> loop_state" where
  "collect s found =
     s\<lparr>allStories := allStories s @ found, extracted := extracted s @ [currentPage s]\<rparr>"

definition advance :: "loop_state \<Rightarrow> pagination_info \<Rightarrow> loop_state" where
  "advance s info =
     (if continues info (currentPage s) then s\<lparr>currentPage := currentPage s + 1\<rparr>
      else s\<lparr>hasNextPage := False\<rparr>)"

definition loaded :: "loop_state \<Rightarrow> loop_state" where
  "loaded s = s\<lparr>rendered := rendered s @ [currentPage s]\<rparr>"

definition pageCap :: nat where
  "pageCap = 5"

function pageLoop ::
  "(string \<Rightarrow> document option) \<Rightarrow> string \<Rightarrow> string \<Rightarrow> loop_state \<Rightarrow> run_error + loop_state" where
  "pageLoop render now baseUrl s =
     (if hasNextPage s \<and> currentPage s \<le> pageCap then
        (case render (pageUrl baseUrl (currentPage s)) of
           None \<Rightarrow> Inl RenderFailed
         | Some doc \<Rightarrow>
             if cards doc = [] then Inr (loaded s)
             else pageLoop render now baseUrl
                    (advance (collect (loaded s) (pageStories (currentPage s) now doc))
                             (paginationInfo doc)))
      else Inr s)"
  by pat_completeness auto
termination
  by (relation "measure (\<lambda>(render, now, baseUrl, s).
        (if hasNextPage s then 1 else 0) + (Suc pageCap - currentPage s))")
     (auto simp: advance_def collect_def loaded_def)

declare pageLoop.simps [simp del]

definition initialState :: loop_state where
  "initialState = \<lparr>allStories = [], currentPage = 1, hasNextPage = True,
                    rendered = [], extracted = []\<rparr>"

section \<open>The asset fetcher\<close>

text \<open>
  The network is outside the script. A request to a URL either yields a response (status
  code, \<^verbatim>\<open>Location\<close> header, and what then happens to the body), fails with a request
  error, or stays silent until the request's timeout fires. For a response with status
  200 the script opens the destination with \<^verbatim>\<open>fs.createWriteStream\<close> and pipes the
  body into it; the body is written to its end (\<open>Finish\<close>), the file stream reports an
  error (\<open>WriteError\<close>), or the transfer stalls until the timeout fires (\<open>Stall\<close>).

  Local storage is a map from paths to the state of the file there. Creating the
  directory of the destination is not modelled.

  A chain of redirects need not end, so \<open>downloadImage\<close> takes the number of requests it
  may still issue; \<open>None\<close> means that the promise has not settled within them. Each
  request has its own 30 second timer; the model lets the reply of a request say whether
  its timer fired, and takes the request that follows a redirect to settle before the
  timer of the redirected request does.
\<close>

datatype body_outcome = Finish | WriteError | Stall

record response =
  statusCode :: nat
  location :: "string option"
  body :: body_outcome

datatype reply = Response response | RequestError | RequestTimeout

datatype file_state = Partial | Complete

type_synonym storage = "string \<rightharpoonup> file_state"

datatype fetch_error = BadStatus nat | WriteFailed | NetworkFailed | DownloadTimeout

datatype 'a promise = Resolved 'a | Rejected fetch_error

text \<open>\<^verbatim>\<open>!imageUrl || imageUrl.startsWith('data:')\<close>\<close>

definition nothingToFetch :: "string option \<Rightarrow> bool" where
  "nothingToFetch imageUrl =
     (case imageUrl of None \<Rightarrow> True | Some u \<Rightarrow> u = [] \<or> startsWith u ''data:'')"

definition onResponse200 ::
  "storage \<Rightarrow> string \<Rightarrow> body_outcome \<Rightarrow> string option promise \<times> storage" where
  "onResponse200 fs localPath outcome =
     (case outcome of
        Finish \<Rightarrow> (Resolved (Some localPath), fs(localPath \<mapsto> Complete))
      | WriteError \<Rightarrow> (Rejected WriteFailed, fs(localPath := None))
      | Stall \<Rightarrow> (Rejected DownloadTimeout, fs(localPath \<mapsto> Partial)))"

fun downloadImage ::
  "nat \<Rightarrow> (string \<Rightarrow> reply) \<Rightarrow> storage \<Rightarrow> string option \<Rightarrow> string
     \<Rightarrow> (string option promise \<times> storage) option" where
  "downloadImage fuel net fs None localPath = Some (Resolved None, fs)"
| "downloadImage 0 net fs (Some u) localPath =
     (if nothingToFetch (Some u) then Some (Resolved None, fs) else None)"
| "downloadImage (Suc fuel) net fs (Some u) localPath =
     (if nothingToFetch (Some u) then Some (Resolved None, fs)
      else (case net u of
              RequestError \<Rightarrow> Some (Rejected NetworkFailed, fs)
            | RequestTimeout \<Rightarrow> Some (Rejected DownloadTimeout, fs)
            | Response r \<Rightarrow>
                if statusCode r = 200 then Some (onResponse200 fs localPath (body r))
                else if statusCode r = 301 \<or> statusCode r = 302
                  then downloadImage fuel net fs (location r) localPath
                else Some (Rejected (BadStatus (statusCode r)), fs)))"

text \<open>
  The redirects that \<open>downloadImage\<close> follows. A URL redirects when it is fetched and
  answered with status 301 or 302; \<open>redirects net url target\<close> holds when following such
  answers from \<open>url\<close>, each time to the \<^verbatim>\<open>Location\<close> of the answer, leads to \<open>target\<close>.
\<close>

definition isRedirect :: "(string \<Rightarrow> reply) \<Rightarrow> string option \<Rightarrow> bool" where
  "isRedirect net url =
     (case url of
        None \<Rightarrow> False
      | Some u \<Rightarrow>
          \<not> nothingToFetch url \<and>
          (case net u of
             Response r \<Rightarrow> statusCode r = 301 \<or> statusCode r = 302
           | RequestError \<Rightarrow> False
           | RequestTimeout \<Rightarrow> False))"

inductive redirects :: "(string \<Rightarrow> reply) \<Rightarrow> string option \<Rightarrow> string option \<Rightarrow> bool"
  for net :: "string \<Rightarrow> reply" where
  arrived: "redirects net target target"
| hop: "\<lbrakk>isRedirect net (Some u); net u = Response r; redirects net (location r) target\<rbrakk>
        \<Longrightarrow> redirects net (Some u) target"

section \<open>The download phase\<close>

definition pathJoin :: "string \<Rightarrow> string \<Rightarrow> string" where
  "pathJoin dir file = dir @ ''/'' @ file"

text \<open>
  One \<^verbatim>\<open>try { await downloadImage(url, path); field = `media/${filename}` } catch { }\<close>
  block: the result for the field (\<open>None\<close> leaves it as it was) and the storage
  afterwards. The value the promise resolves to is not looked at.
\<close>

definition tryDownload ::
  "nat \<Rightarrow> (string \<Rightarrow> reply) \<Rightarrow> string \<Rightarrow> storage \<Rightarrow> string \<Rightarrow> string
     \<Rightarrow> (string option \<times> storage) option" where
  "tryDownload fuel net mediaDir fs url filename =
     (case downloadImage fuel net fs (Some url) (pathJoin mediaDir filename) of
        None \<Rightarrow> None
      | Some (Resolved v, fs') \<Rightarrow> Some (Some (''media/'' @ filename), fs')
      | Some (Rejected e, fs') \<Rightarrow> Some (None, fs'))"

definition setIfSome :: "string option \<Rightarrow> string option \<Rightarrow> string option" where
  "setIfSome new old = (case new of None \<Rightarrow> old | Some v \<Rightarrow> Some v)"

definition downloadLogo ::
  "nat \<Rightarrow> (string \<Rightarrow> reply) \<Rightarrow> string \<Rightarrow> storage \<Rightarrow> story \<Rightarrow> (story \<times> storage) option" where
  "downloadLogo fuel net mediaDir fs st =
     (if logo st \<noteq> [] then
        (case tryDownload fuel net mediaDir fs (logo st)
                (generateImageFilename [] (globalId st) ''logo''
                   (getImageExtension (logo st) [])) of
           None \<Rightarrow> None
         | Some (v, fs') \<Rightarrow> Some (st\<lparr>logoLocal := setIfSome v (logoLocal st)\<rparr>, fs'))
      else Some (st, fs))"

definition downloadHeader ::
  "nat \<Rightarrow> (string \<Rightarrow> reply) \<Rightarrow> string \<Rightarrow> storage \<Rightarrow> story \<Rightarrow> (story \<times> storage) option" where
  "downloadHeader fuel net mediaDir fs st =
     (if headerImage st \<noteq> [] then
        (case tryDownload fuel net mediaDir fs (headerImage st)
                (generateImageFilename [] (globalId st) ''header''
                   (getImageExtension (headerImage st) [])) of
           None \<Rightarrow> None
         | Some (v, fs') \<Rightarrow>
             Some (st\<lparr>headerImageLocal := setIfSome v (headerImageLocal st)\<rparr>, fs'))
      else Some (st, fs))"

fun downloadIcons ::
  "nat \<Rightarrow> (string \<Rightarrow> reply) \<Rightarrow> string \<Rightarrow> string \<Rightarrow> storage \<Rightarrow> product list
     \<Rightarrow> (product list \<times> storage) option" where
  "downloadIcons fuel net mediaDir gid fs [] = Some ([], fs)"
| "downloadIcons fuel net mediaDir gid fs (p # ps) =
     (case (if icon p \<noteq> [] then
              (case tryDownload fuel net mediaDir fs (icon p)
                      (iconFilename gid (name p) (getImageExtension (icon p) [])) of
                 None \<Rightarrow> None
               | Some (v, fs') \<Rightarrow> Some (p\<lparr>iconLocal := setIfSome v (iconLocal p)\<rparr>, fs'))
            else Some (p, fs)) of
        None \<Rightarrow> None
      | Some (p', fs') \<Rightarrow>
          (case downloadIcons fuel net mediaDir gid fs' ps of
             None \<Rightarrow> None
           | Some (ps', fs'') \<Rightarrow> Some (p' # ps', fs'')))"

definition downloadStory ::
  "nat \<Rightarrow> (string \<Rightarrow> reply) \<Rightarrow> string \<Rightarrow> storage \<Rightarrow> story \<Rightarrow> (story \<times> storage) option" where
  "downloadStory fuel net mediaDir fs st =
     (case downloadLogo fuel net mediaDir fs st of
        None \<Rightarrow> None
      | Some (st1, fs1) \<Rightarrow>
          (case downloadHeader fuel net mediaDir fs1 st1 of
             None \<Rightarrow> None
           | Some (st2, fs2) \<Rightarrow>
               (case downloadIcons fuel net mediaDir (globalId st2) fs2
                       (microsoftProducts st2) of
                  None \<Rightarrow> None
                | Some (ps, fs3) \<Rightarrow> Some (st2\<lparr>microsoftProducts := ps\<rparr>, fs3))))"

fun downloadAll ::
  "nat \<Rightarrow> (string \<Rightarrow> reply) \<Rightarrow> string \<Rightarrow> storage \<Rightarrow> story list
     \<Rightarrow> (story list \<times> storage) option" where
  "downloadAll fuel net mediaDir fs [] = Some ([], fs)"
| "downloadAll fuel net mediaDir fs (st # sts) =
     (case downloadStory fuel net mediaDir fs st of
        None \<Rightarrow> None
      | Some (st', fs') \<Rightarrow>
          (case downloadAll fuel net mediaDir fs' sts of
             None \<Rightarrow> None
           | Some (sts', fs'') \<Rightarrow> Some (st' # sts', fs'')))"

section \<open>The dataset\<close>

text \<open>\<^verbatim>\<open>acc[story.page] = (acc[story.page] || 0) + 1\<close> on an object that starts
  empty; the object is an association list from page numbers to counts.\<close>

definition countPage :: "(nat \<times> nat) list \<Rightarrow> story \<Rightarrow> (nat \<times> nat) list" where
  "countPage acc st =
     AList.update (page st)
       ((case map_of acc (page st) of None \<Rightarrow> 0 | Some n \<Rightarrow> n) + 1) acc"

definition storiesPerPageOf :: "story list \<Rightarrow> (nat \<times> nat) list" where
  "storiesPerPageOf sts = foldl countPage [] sts"

record metadata =
  totalPages :: nat
  totalStories :: nat
  extractionDate :: string
  baseUrl :: string
  storiesPerPage :: "(nat \<times> nat) list"

record results =
  metadata :: metadata
  stories :: "story list"

definition paginatedResults :: "nat \<Rightarrow> story list \<Rightarrow> string \<Rightarrow> string \<Rightarrow> results" where
  "paginatedResults cur sts now url =
     \<lparr>metadata = \<lparr>totalPages = cur,
                  totalStories = length sts,
                  extractionDate = now,
                  baseUrl = url,
                  storiesPerPage = storiesPerPageOf sts\<rparr>,
      stories = sts\<rparr>"

text \<open>
  The whole test body. \<open>env\<close> is the value of \<^verbatim>\<open>process.env.BASE_URL\<close>, \<open>cwd\<close> the
  working directory. The outer \<open>None\<close> is a run that does not come to an end because a
  download never settles; \<open>Inl\<close> is a run that throws. Besides the dataset the result
  holds the final loop state and storage.
\<close>

definition run ::
  "(string \<Rightarrow> document option) \<Rightarrow> (string \<Rightarrow> reply) \<Rightarrow> nat \<Rightarrow> string \<Rightarrow> string
     \<Rightarrow> storage \<Rightarrow> string option \<Rightarrow> (run_error + results \<times> loop_state \<times> storage) option" where
  "run render net fuel now cwd fs env =
     (case env of
        None \<Rightarrow> Some (Inl MissingBaseUrl)
      | Some url \<Rightarrow>
          if url = [] then Some (Inl MissingBaseUrl)
          else (case pageLoop render now url initialState of
                  Inl e \<Rightarrow> Some (Inl e)
                | Inr s \<Rightarrow>
                    if length (allStories s) = 0 then Some (Inl NoStories)
                    else (case downloadAll fuel net (pathJoin cwd ''media'') fs (allStories s) of
                            None \<Rightarrow> None
                          | Some (sts, fs') \<Rightarrow>
                              Some (Inr (paginatedResults (currentPage s) sts now url,
                                         s, fs')))))"

section \<open>Example inputs\<close>

text \<open>Cards, pages, sites and networks on which the statements below are evaluated.\<close>

definition plainCard :: card_dom where
  "plainCard =
     \<lparr>titleElement = Some ''Contoso speeds up claims'',
      industryElement = Some ''Industry: Insurance'',
      anchors = [''/en-us/customers/story/1-contoso''],
      logoImg = None, headerImg = None, productElements = []\<rparr>"

text \<open>A card whose title element holds white space only.\<close>

definition blankTitleCard :: card_dom where
  "blankTitleCard = plainCard\<lparr>titleElement := Some ''  ''\<rparr>"

text \<open>A card whose logo is an inline \<^verbatim>\<open>data:\<close> image.\<close>

definition inlineLogoCard :: card_dom where
  "inlineLogoCard =
     plainCard\<lparr>logoImg := Some \<lparr>src = Some ''data:image/png;base64,AAAA'', alt = None\<rparr>\<rparr>"

text \<open>A page with the given cards and none of the elements the pagination check reads.\<close>

definition pageOf :: "card_dom list \<Rightarrow> document" where
  "pageOf cs =
     \<lparr>cards = cs, paginationContainer = None, showValue = None, showTotal = None,
      paginationElement = None, nextButton = None\<rparr>"

definition lastPageOf :: "card_dom list \<Rightarrow> document" where
  "lastPageOf cs = (pageOf cs)\<lparr>paginationElement := Some ''Page 1 of 1''\<rparr>"

text \<open>A page whose pagination container is hidden while 12 of 12 results are shown, with
  an announcement that would ask for more.\<close>

definition hiddenPaginationDoc :: document where
  "hiddenPaginationDoc =
     (pageOf [plainCard])\<lparr>paginationContainer := Some [''pagination'', ''d-none''],
                           showValue := Some ''12'', showTotal := Some ''12'',
                           paginationElement := Some ''Page 2 of 5''\<rparr>"

text \<open>A page with the given announcement and a next control marked disabled.\<close>

definition announcingDoc :: "string \<Rightarrow> document" where
  "announcingDoc t =
     (pageOf [plainCard])\<lparr>paginationElement := Some t,
                           nextButton := Some \<lparr>classList = [''disabled''],
                                                 ariaDisabled = None\<rparr>\<rparr>"

text \<open>A page without announcement whose next control carries \<^verbatim>\<open>aria-disabled="true"\<close>.\<close>

definition disabledNextDoc :: document where
  "disabledNextDoc =
     (pageOf [plainCard])\<lparr>nextButton := Some \<lparr>classList = [''arrow''],
                                                 ariaDisabled = Some ''true''\<rparr>\<rparr>"

text \<open>A site on which every page URL shows one card and no pagination element.\<close>

definition endlessSite :: "string \<Rightarrow> document option" where
  "endlessSite url = Some (pageOf [plainCard])"

definition onePageSite :: "string \<Rightarrow> document option" where
  "onePageSite url = Some (lastPageOf [plainCard, plainCard])"

definition blankTitleSite :: "string \<Rightarrow> document option" where
  "blankTitleSite url = Some (lastPageOf [blankTitleCard])"

definition inlineLogoSite :: "string \<Rightarrow> document option" where
  "inlineLogoSite url = Some (lastPageOf [inlineLogoCard])"

definition offline :: "string \<Rightarrow> reply" where
  "offline url = RequestError"

definition noContentNet :: "string \<Rightarrow> reply" where
  "noContentNet url = Response \<lparr>statusCode = 204, location = None, body = Finish\<rparr>"

definition stalledNet :: "string \<Rightarrow> reply" where
  "stalledNet url = Response \<lparr>statusCode = 200, location = None, body = Stall\<rparr>"

definition brokenDiskNet :: "string \<Rightarrow> reply" where
  "brokenDiskNet url = Response \<lparr>statusCode = 200, location = None, body = WriteError\<rparr>"

text \<open>Two redirects, then the image.\<close>

definition movedNet :: "string \<Rightarrow> reply" where
  "movedNet url =
     (if url = ''http://a.example/logo.png''
        then Response \<lparr>statusCode = 301, location = Some ''https://b.example/logo.png'',
                        body = Finish\<rparr>
      else if url = ''https://b.example/logo.png''
        then Response \<lparr>statusCode = 302, location = Some ''https://c.example/logo.png'',
                        body = Finish\<rparr>
      else if url = ''https://c.example/logo.png''
        then Response \<lparr>statusCode = 200, location = None, body = Finish\<rparr>
      else RequestError)"

section \<open>Facts about the string helpers\<close>

lemmas char_defs = toLowerCase_def toLowerChar_def isAlnum_def isUpper_def isLower_def
  isDigit_def upperChars_def lowerChars_def digitChars_def digitChar_def isSpace_def
  isLineTerminator_def

lemma below_ten: "(d::nat) < 10 \<Longrightarrow> d \<in> {0, 1, 2, 3, 4, 5, 6, 7, 8, 9}"
  by auto

lemma isDigit_digitChar: "d < 10 \<Longrightarrow> isDigit (digitChar d)"
  by (drule below_ten) (auto simp: isDigit_def digitChar_def digitChars_def)

lemma digitValue_digits:
  "digitValue 10 (CHR ''0'') = Some 0" "digitValue 10 (CHR ''1'') = Some 1"
  "digitValue 10 (CHR ''2'') = Some 2" "digitValue 10 (CHR ''3'') = Some 3"
  "digitValue 10 (CHR ''4'') = Some 4" "digitValue 10 (CHR ''5'') = Some 5"
  "digitValue 10 (CHR ''6'') = Some 6" "digitValue 10 (CHR ''7'') = Some 7"
  "digitValue 10 (CHR ''8'') = Some 8" "digitValue 10 (CHR ''9'') = Some 9"
  by (simp_all add: digitValue_def radixDigits_def toLowerChar_def upperChars_def lowerChars_def)

lemma digitValue_digitChar: "d < 10 \<Longrightarrow> digitValue 10 (digitChar d) = Some d"
  by (drule below_ten) (auto simp: digitChar_def digitChars_def digitValue_digits)

lemma digitValue_of_digit: "isDigit c \<Longrightarrow> digitValue 10 c \<noteq> None"
  by (auto simp: isDigit_def digitChars_def digitValue_digits)

lemma showNat_digits: "c \<in> set (showNat n) \<Longrightarrow> isDigit c"
proof (induction n arbitrary: c rule: showNat.induct)
  case (1 n)
  show ?case
  proof (cases "n < 10")
    case True
    with "1.prems" show ?thesis
      by (simp add: showNat.simps [of n] isDigit_digitChar)
  next
    case False
    with "1.prems" "1.IH" show ?thesis
      by (auto simp: showNat.simps [of n] isDigit_digitChar)
  qed
qed

lemma showNat_nonempty: "showNat n \<noteq> []"
  by (subst showNat.simps) simp

lemma digitsPrefix_append:
  "\<forall>c \<in> set xs. digitValue r c \<noteq> None \<Longrightarrow>
   digitsPrefix r (xs @ ys) = map (\<lambda>c. the (digitValue r c)) xs @ digitsPrefix r ys"
  by (induction xs) auto

lemma digitsValue_snoc: "digitsValue r (ds @ [d]) = digitsValue r ds * r + d"
  by (simp add: digitsValue_def)

lemma digitsPrefix_showNat:
  "digitsPrefix 10 (showNat n @ ys) = map (\<lambda>c. the (digitValue 10 c)) (showNat n) @ digitsPrefix 10 ys"
  by (rule digitsPrefix_append) (simp add: showNat_digits digitValue_of_digit)

lemma digitsValue_showNat:
  "digitsValue 10 (map (\<lambda>c. the (digitValue 10 c)) (showNat n)) = n"
proof (induction n rule: showNat.induct)
  case (1 n)
  show ?case
  proof (cases "n < 10")
    case True
    then show ?thesis
      by (simp add: showNat.simps [of n] digitValue_digitChar digitsValue_def)
  next
    case False
    then have "digitsValue 10 (map (\<lambda>c. the (digitValue 10 c)) (showNat (n div 10))) = n div 10"
      using "1.IH" by simp
    with False show ?thesis
      by (simp add: showNat.simps [of n] digitsValue_snoc digitValue_digitChar)
  qed
qed

lemma showNat_inj:
  assumes "showNat a = showNat b"
  shows "a = b"
proof -
  have "a = digitsValue 10 (map (\<lambda>c. the (digitValue 10 c)) (showNat a))"
    by (simp only: digitsValue_showNat)
  also have "\<dots> = digitsValue 10 (map (\<lambda>c. the (digitValue 10 c)) (showNat b))"
    by (simp only: assms)
  also have "\<dots> = b"
    by (simp only: digitsValue_showNat)
  finally show ?thesis .
qed

lemma underscore_not_digit: "\<not> isDigit (CHR ''_'')"
  by (simp add: isDigit_def digitChars_def)

lemma digits_split:
  assumes "\<forall>c \<in> set xs. isDigit c" "\<forall>c \<in> set ys. isDigit c"
    and "\<not> isDigit sep" "xs @ sep # r = ys @ sep # r'"
  shows "xs = ys \<and> r = r'"
proof -
  have "takeWhile isDigit (xs @ sep # r) = xs" "takeWhile isDigit (ys @ sep # r') = ys"
    using assms(1,2,3) by (simp_all add: takeWhile_append2)
  with assms(4) have "xs = ys" by simp
  with assms(4) show ?thesis by simp
qed

lemma mkGlobalId_inj: "mkGlobalId a b = mkGlobalId c d \<Longrightarrow> a = c \<and> b = d"
proof -
  assume "mkGlobalId a b = mkGlobalId c d"
  then have "showNat a @ CHR ''_'' # showNat b = showNat c @ CHR ''_'' # showNat d"
    by (simp add: mkGlobalId_def)
  then have "showNat a = showNat c \<and> showNat b = showNat d"
    using digits_split [of "showNat a" "showNat c" "CHR ''_''" "showNat b" "showNat d"]
      showNat_digits underscore_not_digit by blast
  then show ?thesis by (simp add: showNat_inj)
qed

lemma toLowerChar_other: "\<not> isUpper c \<Longrightarrow> toLowerChar c = c"
proof -
  assume "\<not> isUpper c"
  then have "c \<notin> fst ` set (zip upperChars lowerChars)"
    by (simp add: isUpper_def upperChars_def lowerChars_def image_iff) 
  then have "map_of (zip upperChars lowerChars) c = None"
    by (simp only: map_of_eq_None_iff not_False_eq_True)
  then show ?thesis by (simp add: toLowerChar_def)
qed

lemma upper_cases:
  "isUpper c \<Longrightarrow> toLowerChar c \<noteq> c \<and> isLower (toLowerChar c) \<and> \<not> isLower c \<and> \<not> isDigit c"
  unfolding isUpper_def upperChars_def
  by (elim disjE | simp add: toLowerChar_def upperChars_def lowerChars_def isLower_def isDigit_def digitChars_def)+

section \<open>Asset file names are a function of their arguments\<close>

lemma sanitize_char:
  "toLowerChar (if isAlnum c then c else CHR ''_'') =
   (if isAlnum (toLowerChar c) then toLowerChar c else CHR ''_'')"
proof (cases "isUpper c")
  case True
  then show ?thesis using upper_cases [of c] by (simp add: isAlnum_def)
next
  case False
  have "toLowerChar (CHR ''_'') = CHR ''_''"
    by (simp add: toLowerChar_def upperChars_def lowerChars_def)
  with False show ?thesis by (simp add: toLowerChar_other)
qed

lemma sanitize_char_alt:
  "toLowerChar (if isAlnum c then c else CHR ''_'') =
   (if isAlnum c then toLowerChar c else CHR ''_'')"
  by (simp add: toLowerChar_def upperChars_def lowerChars_def)

text \<open>
  C9. The file name of an asset is exactly the global id, an underscore, the role tag, a
  dot and the extension; it does not depend on the unused company-name argument, so equal
  global id, role and extension give equal names. For a product icon the role tag is
  \<^verbatim>\<open>product_\<close> followed by the sanitised product name, in which every alphanumeric
  character is lowercased and every other character is an underscore; replacing first
  and lowercasing second, as the script does, agrees with lowercasing first.
\<close>

theorem filename_derivation:
  "generateImageFilename companyName gid role ext = gid @ ''_'' @ role @ ''.'' @ ext \<and>
   generateImageFilename companyName gid role ext = generateImageFilename other gid role ext \<and>
   iconFilename gid nm ext = gid @ ''_'' @ (''product_'' @ productSafeName nm) @ ''.'' @ ext \<and>
   productSafeName nm = map (\<lambda>c. if isAlnum c then toLowerChar c else CHR ''_'') nm \<and>
   productSafeName nm = spec_sanitize nm"
proof -
  have a: "productSafeName nm = map (\<lambda>c. if isAlnum c then toLowerChar c else CHR ''_'') nm"
    unfolding productSafeName_def replaceNonAlnum_def toLowerCase_def map_map comp_def
    by (simp only: sanitize_char_alt)
  have b: "productSafeName nm = spec_sanitize nm"
    unfolding productSafeName_def spec_sanitize_def replaceNonAlnum_def toLowerCase_def
      map_map comp_def
    by (simp only: sanitize_char)
  show ?thesis
    using a b by (simp add: generateImageFilename_def iconFilename_def)
qed

section \<open>The per-page counts\<close>

lemma sum_bump:
  fixes al :: "('k \<times> nat) list"
  shows "sum_list (map snd (AList.update k ((case map_of al k of None \<Rightarrow> 0 | Some n \<Rightarrow> n) + 1) al))
     = sum_list (map snd al) + 1"
  by (induction al) auto

lemma sum_countPage: "sum_list (map snd (countPage acc st)) = sum_list (map snd acc) + 1"
  by (simp only: countPage_def sum_bump)

lemma sum_foldl_countPage:
  "sum_list (map snd (foldl countPage acc sts)) = sum_list (map snd acc) + length sts"
  by (induction sts arbitrary: acc) (simp_all add: sum_countPage)

lemma distinct_countPage:
  "distinct (map fst acc) \<Longrightarrow> distinct (map fst (countPage acc st))"
  by (simp add: countPage_def distinct_update)

lemma distinct_foldl_countPage:
  "distinct (map fst acc) \<Longrightarrow> distinct (map fst (foldl countPage acc sts))"
  by (induction sts arbitrary: acc) (simp_all add: distinct_countPage)

lemma map_of_countPage:
  "map_of (countPage acc st) p =
     (if p = page st then Some ((case map_of acc p of None \<Rightarrow> 0 | Some n \<Rightarrow> n) + 1)
      else map_of acc p)"
  by (simp add: countPage_def update_conv')

lemma map_of_foldl_countPage:
  "map_of (foldl countPage acc sts) p =
     (if map_of acc p = None \<and> filter (\<lambda>st. page st = p) sts = [] then None
      else Some ((case map_of acc p of None \<Rightarrow> 0 | Some n \<Rightarrow> n)
                 + length (filter (\<lambda>st. page st = p) sts)))"
proof (induction sts arbitrary: acc)
  case Nil
  then show ?case by (cases "map_of acc p") simp_all
next
  case (Cons st sts)
  show ?case
    by (cases "map_of acc p") (auto simp: Cons.IH map_of_countPage)
qed

lemma storiesPerPageOf_lookup:
  "map_of (storiesPerPageOf sts) p =
     (if filter (\<lambda>st. page st = p) sts = [] then None
      else Some (length (filter (\<lambda>st. page st = p) sts)))"
  by (simp add: storiesPerPageOf_def map_of_foldl_countPage)

section \<open>Extraction of one page\<close>

lemma extractCard_Some:
  assumes "extractCard p now i c = Some st"
  shows "page st = p \<and> positionOnPage st = i + 1 \<and> globalId st = mkGlobalId p (i + 1) \<and>
         (\<exists>t. titleElement c = Some t \<and> title st = trim t) \<and>
         storyLink c = Some (storyUrl st)"
  using assms by (auto simp: extractCard_def split: option.splits)

lemma extractFrom_mem:
  "st \<in> set (extractFrom p now i cs) \<Longrightarrow>
   \<exists>j c. i \<le> j \<and> c \<in> set cs \<and> extractCard p now j c = Some st"
proof (induction cs arbitrary: i)
  case Nil
  then show ?case by simp
next
  case (Cons c cs)
  show ?case
  proof (cases "extractCard p now i c = Some st")
    case True
    then show ?thesis by auto
  next
    case False
    with Cons.prems have "st \<in> set (extractFrom p now (i + 1) cs)"
      by (auto split: option.splits)
    from Cons.IH [OF this] obtain j c' where
      "i + 1 \<le> j" "c' \<in> set cs" "extractCard p now j c' = Some st" by blast
    then show ?thesis by (intro exI [of _ j] exI [of _ c']) simp
  qed
qed

lemma extractFrom_shape:
  assumes "st \<in> set (extractFrom p now i cs)"
  shows "page st = p \<and> i < positionOnPage st \<and>
         globalId st = mkGlobalId (page st) (positionOnPage st)"
proof -
  from extractFrom_mem [OF assms] obtain j c where
    "i \<le> j" "extractCard p now j c = Some st" by blast
  then show ?thesis using extractCard_Some [of p now j c st] by simp
qed

lemma extractFrom_distinct: "distinct (map positionOnPage (extractFrom p now i cs))"
proof (induction cs arbitrary: i)
  case Nil
  then show ?case by simp
next
  case (Cons c cs)
  show ?case
  proof (cases "extractCard p now i c")
    case None
    then show ?thesis using Cons.IH [of "i + 1"] by simp
  next
    case (Some st)
    then have pos: "positionOnPage st = i + 1" using extractCard_Some by blast
    have "positionOnPage st \<notin> positionOnPage ` set (extractFrom p now (i + 1) cs)"
    proof
      assume "positionOnPage st \<in> positionOnPage ` set (extractFrom p now (i + 1) cs)"
      then obtain x where "x \<in> set (extractFrom p now (i + 1) cs)"
        "positionOnPage x = positionOnPage st" by auto
      with extractFrom_shape [of x p now "i + 1" cs] pos show False by simp
    qed
    with Some show ?thesis using Cons.IH [of "i + 1"] by simp
  qed
qed

section \<open>An invariant rule for the page loop\<close>

lemma advance_fields [simp]:
  "allStories (advance s info) = allStories s"
  "rendered (advance s info) = rendered s"
  "extracted (advance s info) = extracted s"
  "currentPage (advance s info) =
     (if continues info (currentPage s) then currentPage s + 1 else currentPage s)"
  "hasNextPage (advance s info) = (hasNextPage s \<and> continues info (currentPage s))"
  by (simp_all add: advance_def)

lemma collect_fields [simp]:
  "allStories (collect s found) = allStories s @ found"
  "rendered (collect s found) = rendered s"
  "extracted (collect s found) = extracted s @ [currentPage s]"
  "currentPage (collect s found) = currentPage s"
  "hasNextPage (collect s found) = hasNextPage s"
  by (simp_all add: collect_def)

lemma loaded_fields [simp]:
  "allStories (loaded s) = allStories s"
  "rendered (loaded s) = rendered s @ [currentPage s]"
  "extracted (loaded s) = extracted s"
  "currentPage (loaded s) = currentPage s"
  "hasNextPage (loaded s) = hasNextPage s"
  by (simp_all add: loaded_def)

text \<open>An invariant rule for the loop: \<open>I\<close> holds whenever the loop condition is tested,
  \<open>Q\<close> holds of the state the loop is left with, by the condition or by \<^verbatim>\<open>break\<close>.\<close>

lemma pageLoop_rule:
  assumes run: "pageLoop render now url s = Inr s'"
    and init: "I s"
    and step: "\<And>s doc. \<lbrakk>I s; hasNextPage s; currentPage s \<le> pageCap;
                  render (pageUrl url (currentPage s)) = Some doc; cards doc \<noteq> []\<rbrakk>
               \<Longrightarrow> I (advance (collect (loaded s) (pageStories (currentPage s) now doc))
                              (paginationInfo doc))"
    and brk: "\<And>s doc. \<lbrakk>I s; hasNextPage s; currentPage s \<le> pageCap;
                  render (pageUrl url (currentPage s)) = Some doc; cards doc = []\<rbrakk>
               \<Longrightarrow> Q (loaded s)"
    and fin: "\<And>s. \<lbrakk>I s; \<not> (hasNextPage s \<and> currentPage s \<le> pageCap)\<rbrakk> \<Longrightarrow> Q s"
  shows "Q s'"
  using run init
proof (induction "(if hasNextPage s then 1 else 0) + (Suc pageCap - currentPage s)"
    arbitrary: s rule: less_induct)
  case less
  note run = less.prems(1) and init = less.prems(2)
  show ?case
  proof (cases "hasNextPage s \<and> currentPage s \<le> pageCap")
    case False
    with run have "s' = s" by (simp add: pageLoop.simps [of _ _ _ s])
    with False init fin show ?thesis by blast
  next
    case True
    then obtain doc where doc: "render (pageUrl url (currentPage s)) = Some doc"
      using run by (cases "render (pageUrl url (currentPage s))")
        (simp_all add: pageLoop.simps [of _ _ _ s])
    show ?thesis
    proof (cases "cards doc = []")
      case empty: True
      with True doc run have "s' = loaded s" by (simp add: pageLoop.simps [of _ _ _ s])
      moreover have "Q (loaded s)"
        using True by (intro brk [OF init _ _ doc empty]) simp_all
      ultimately show ?thesis by simp
    next
      case False
      let ?n = "advance (collect (loaded s) (pageStories (currentPage s) now doc))
                  (paginationInfo doc)"
      from False True doc run
      have next_run: "pageLoop render now url ?n = Inr s'"
        by (simp add: pageLoop.simps [of _ _ _ s])
      have inv: "I ?n"
        using True by (intro step [OF init _ _ doc False]) simp_all
      have "(if hasNextPage ?n then 1 else 0) + (Suc pageCap - currentPage ?n)
              < (if hasNextPage s then 1 else 0) + (Suc pageCap - currentPage s)"
        using True by auto
      then show ?thesis
        using less.hyps next_run inv by blast
    qed
  qed
qed

section \<open>The download phase changes the local paths only\<close>

lemma downloadLogo_keeps:
  "downloadLogo fuel net dir fs st = Some (st', fs') \<Longrightarrow> \<exists>v. st' = st\<lparr>logoLocal := v\<rparr>"
  by (cases st) (auto simp: downloadLogo_def split: if_splits option.splits)

lemma downloadHeader_keeps:
  "downloadHeader fuel net dir fs st = Some (st', fs') \<Longrightarrow> \<exists>v. st' = st\<lparr>headerImageLocal := v\<rparr>"
  by (cases st) (auto simp: downloadHeader_def split: if_splits option.splits)

lemma downloadStory_keeps:
  assumes "downloadStory fuel net dir fs st = Some (st', fs')"
  shows "\<exists>a b ps. st' = st\<lparr>logoLocal := a, headerImageLocal := b, microsoftProducts := ps\<rparr>"
proof -
  from assms obtain st1 fs1 st2 fs2 ps where
    a: "downloadLogo fuel net dir fs st = Some (st1, fs1)" and
    b: "downloadHeader fuel net dir fs1 st1 = Some (st2, fs2)" and
    c: "st' = st2\<lparr>microsoftProducts := ps\<rparr>"
    by (auto simp: downloadStory_def split: option.splits)
  from downloadLogo_keeps [OF a] obtain x where "st1 = st\<lparr>logoLocal := x\<rparr>" ..
  moreover from downloadHeader_keeps [OF b] obtain y where "st2 = st1\<lparr>headerImageLocal := y\<rparr>" ..
  ultimately have "st' = st\<lparr>logoLocal := x, headerImageLocal := y, microsoftProducts := ps\<rparr>"
    using c by simp
  then show ?thesis by blast
qed

lemma downloadStory_fields:
  assumes "downloadStory fuel net dir fs st = Some (st', fs')"
  shows "page st' = page st" "positionOnPage st' = positionOnPage st"
    "globalId st' = globalId st" "title st' = title st" "storyUrl st' = storyUrl st"
  using downloadStory_keeps [OF assms] by auto

lemma downloadAll_fields:
  "downloadAll fuel net dir fs sts = Some (sts', fs') \<Longrightarrow>
   map page sts' = map page sts \<and> map positionOnPage sts' = map positionOnPage sts \<and>
   map globalId sts' = map globalId sts \<and> map title sts' = map title sts \<and>
   map storyUrl sts' = map storyUrl sts"
proof (induction sts arbitrary: fs sts')
  case Nil
  then show ?case by simp
next
  case (Cons st sts)
  from Cons.prems obtain st1 fs1 rest where
    a: "downloadStory fuel net dir fs st = Some (st1, fs1)" and
    b: "downloadAll fuel net dir fs1 sts = Some (rest, fs')" and
    c: "sts' = st1 # rest"
    by (auto split: option.splits)
  from Cons.IH [OF b] downloadStory_fields [OF a] c show ?case by simp
qed

lemma downloadAll_length:
  "downloadAll fuel net dir fs sts = Some (sts', fs') \<Longrightarrow> length sts' = length sts"
  using downloadAll_fields [of fuel net dir fs sts sts' fs'] by (metis length_map)

section \<open>Evaluation on the example inputs\<close>

text \<open>Unfolding sets for evaluating the model on the example inputs.\<close>

lemmas example_defs = plainCard_def blankTitleCard_def inlineLogoCard_def pageOf_def
  lastPageOf_def endlessSite_def onePageSite_def blankTitleSite_def inlineLogoSite_def
  offline_def noContentNet_def stalledNet_def brokenDiskNet_def movedNet_def
  hiddenPaginationDoc_def announcingDoc_def disabledNextDoc_def

lemmas oracle_defs = paginationInfo_def isPaginationHidden_def allResultsOnOnePage_def
  currentShowing_def totalResults_def paginationText_def nextButtonDisabled_def
  showingText_def matchAnnouncementAt_def continues_def Let_def

lemmas extract_defs = pageStories_def extractCard_def storyLink_def attrOrEmpty_def
  mkGlobalId_def trim_def

lemmas number_defs = parseInt_def parseMagnitude_def digitValue_def radixDigits_def
  digitsValue_def startsWith_def showNat.simps

lemmas loop_defs = initialState_def pageCap_def pageUrl_def advance_def collect_def loaded_def

lemmas download_defs = downloadStory_def downloadLogo_def downloadHeader_def tryDownload_def
  setIfSome_def pathJoin_def nothingToFetch_def onResponse200_def getImageExtension_def
  knownExtensions_def queryTail_def generateImageFilename_def iconFilename_def
  productSafeName_def replaceNonAlnum_def

lemmas dataset_defs = run_def paginatedResults_def storiesPerPageOf_def countPage_def

section \<open>Completed runs\<close>

lemma run_completed:
  assumes "run render net fuel now cwd fs env = Some (Inr (r, s, fs'))"
  obtains url where "env = Some url" "url \<noteq> []"
    "pageLoop render now url initialState = Inr s" "allStories s \<noteq> []"
    "downloadAll fuel net (pathJoin cwd ''media'') fs (allStories s) = Some (stories r, fs')"
    "r = paginatedResults (currentPage s) (stories r) now url"
  using assms
  by (auto simp: run_def paginatedResults_def split: option.splits if_splits sum.splits)

lemma map_eq_nth: "map f xs = map f ys \<Longrightarrow> i < length xs \<Longrightarrow> f (xs ! i) = f (ys ! i)"
  by (metis length_map nth_map)

lemma pairs_as_zip: "map (\<lambda>x. (f x, g x)) xs = zip (map f xs) (map g xs)"
  by (induction xs) simp_all

lemma distinct_ids:
  assumes fmt: "\<forall>x \<in> set xs. globalId x = mkGlobalId (page x) (positionOnPage x)"
    and dis: "distinct (map (\<lambda>x. (page x, positionOnPage x)) xs)"
  shows "distinct (map globalId xs)"
proof -
  let ?pairs = "map (\<lambda>x. (page x, positionOnPage x)) xs"
  have eq: "map globalId xs = map (\<lambda>(a, b). mkGlobalId a b) ?pairs"
    using fmt by simp
  have "inj (\<lambda>(a, b). mkGlobalId a b)"
    by (auto simp: inj_on_def dest: mkGlobalId_inj)
  then have "inj_on (\<lambda>(a, b). mkGlobalId a b) (set ?pairs)"
    by (rule inj_on_subset) simp
  with dis have "distinct (map (\<lambda>(a, b). mkGlobalId a b) ?pairs)"
    by (simp only: distinct_map simp_thms)
  then show ?thesis unfolding eq .
qed

text \<open>What the loop keeps true of the accumulated records: each carries the identifier
  of its page and position, no two share page and position, and while the loop goes on
  all of them lie on pages before the current one.\<close>

lemma pageLoop_ids:
  assumes "pageLoop render now url initialState = Inr s"
  shows "(\<forall>st \<in> set (allStories s). globalId st = mkGlobalId (page st) (positionOnPage st))
         \<and> distinct (map (\<lambda>st. (page st, positionOnPage st)) (allStories s))"
proof (rule pageLoop_rule [OF assms, where
      I = "\<lambda>s. (\<forall>st \<in> set (allStories s).
                   globalId st = mkGlobalId (page st) (positionOnPage st) \<and>
                   (hasNextPage s \<longrightarrow> page st < currentPage s))
               \<and> distinct (map (\<lambda>st. (page st, positionOnPage st)) (allStories s))"])
  show "(\<forall>st\<in>set (allStories initialState).
            globalId st = mkGlobalId (page st) (positionOnPage st) \<and>
            (hasNextPage initialState \<longrightarrow> page st < currentPage initialState)) \<and>
        distinct (map (\<lambda>st. (page st, positionOnPage st)) (allStories initialState))"
    by (simp add: initialState_def)
next
  fix s :: loop_state and doc
  assume going: "hasNextPage s"
  assume inv: "(\<forall>st\<in>set (allStories s).
            globalId st = mkGlobalId (page st) (positionOnPage st) \<and>
            (hasNextPage s \<longrightarrow> page st < currentPage s)) \<and>
        distinct (map (\<lambda>st. (page st, positionOnPage st)) (allStories s))"
  let ?new = "pageStories (currentPage s) now doc"
  let ?n = "advance (collect (loaded s) ?new) (paginationInfo doc)"
  have new: "\<And>st. st \<in> set ?new \<Longrightarrow>
      page st = currentPage s \<and> globalId st = mkGlobalId (page st) (positionOnPage st)"
    unfolding pageStories_def using extractFrom_shape by blast
  have "distinct (map positionOnPage ?new)"
    unfolding pageStories_def by (rule extractFrom_distinct)
  then have dnew: "distinct (map (\<lambda>st. (page st, positionOnPage st)) ?new)"
    by (simp add: pairs_as_zip distinct_zipI2)
  have disj: "set (map (\<lambda>st. (page st, positionOnPage st)) (allStories s)) \<inter>
              set (map (\<lambda>st. (page st, positionOnPage st)) ?new) = {}"
    using inv new going by fastforce
  show "(\<forall>st\<in>set (allStories ?n).
            globalId st = mkGlobalId (page st) (positionOnPage st) \<and>
            (hasNextPage ?n \<longrightarrow> page st < currentPage ?n)) \<and>
        distinct (map (\<lambda>st. (page st, positionOnPage st)) (allStories ?n))"
    using inv new dnew disj going by (auto simp: less_Suc_eq)
next
  fix s :: loop_state and doc :: document
  assume "(\<forall>st\<in>set (allStories s).
            globalId st = mkGlobalId (page st) (positionOnPage st) \<and>
            (hasNextPage s \<longrightarrow> page st < currentPage s)) \<and>
        distinct (map (\<lambda>st. (page st, positionOnPage st)) (allStories s))"
  then show "(\<forall>st\<in>set (allStories (loaded s)).
            globalId st = mkGlobalId (page st) (positionOnPage st)) \<and>
        distinct (map (\<lambda>st. (page st, positionOnPage st)) (allStories (loaded s)))"
    by simp
next
  fix s :: loop_state
  assume "(\<forall>st\<in>set (allStories s).
            globalId st = mkGlobalId (page st) (positionOnPage st) \<and>
            (hasNextPage s \<longrightarrow> page st < currentPage s)) \<and>
        distinct (map (\<lambda>st. (page st, positionOnPage st)) (allStories s))"
  then show "(\<forall>st\<in>set (allStories s).
            globalId st = mkGlobalId (page st) (positionOnPage st)) \<and>
        distinct (map (\<lambda>st. (page st, positionOnPage st)) (allStories s))"
    by simp
qed

section \<open>Identifiers and per-page counts of a completed run\<close>

lemmas run_eval = dataset_defs pageLoop.simps loop_defs example_defs oracle_defs extract_defs
  char_defs number_defs download_defs

text \<open>
  C7. In the dataset of every completed run the global ids are pairwise distinct: each
  record's id is \<^verbatim>\<open>p\<close>, its page, an underscore and its position on the page, and no
  two records share page and position.
\<close>

theorem globalId_unique:
  assumes "run render net fuel now cwd fs env = Some (Inr (r, s, fs'))"
  shows "distinct (map globalId (stories r)) \<and>
         (\<forall>st \<in> set (stories r).
            globalId st = ''p'' @ showNat (page st) @ ''_'' @ showNat (positionOnPage st)) \<and>
         distinct (map (\<lambda>st. (page st, positionOnPage st)) (stories r))"
proof -
  from assms obtain url where
    loop: "pageLoop render now url initialState = Inr s" and
    dl: "downloadAll fuel net (pathJoin cwd ''media'') fs (allStories s) = Some (stories r, fs')"
    by (rule run_completed)
  note keep = downloadAll_fields [OF dl]
  from pageLoop_ids [OF loop] have
    fmt0: "\<forall>st \<in> set (allStories s). globalId st = mkGlobalId (page st) (positionOnPage st)" and
    dis0: "distinct (map (\<lambda>st. (page st, positionOnPage st)) (allStories s))"
    by simp_all
  have dis: "distinct (map (\<lambda>st. (page st, positionOnPage st)) (stories r))"
    using dis0 keep by (simp add: pairs_as_zip)
  have fmt: "\<forall>st \<in> set (stories r). globalId st = mkGlobalId (page st) (positionOnPage st)"
  proof
    fix st assume "st \<in> set (stories r)"
    then obtain i where i: "i < length (stories r)" "st = stories r ! i"
      by (auto simp: in_set_conv_nth)
    have len: "length (stories r) = length (allStories s)"
      using keep by (metis length_map)
    with i have "allStories s ! i \<in> set (allStories s)" by simp
    with fmt0 have "globalId (allStories s ! i) =
        mkGlobalId (page (allStories s ! i)) (positionOnPage (allStories s ! i))" by blast
    moreover have "globalId st = globalId (allStories s ! i)" "page st = page (allStories s ! i)"
      "positionOnPage st = positionOnPage (allStories s ! i)"
      using keep i map_eq_nth by blast+
    ultimately show "globalId st = mkGlobalId (page st) (positionOnPage st)" by simp
  qed
  from distinct_ids [OF fmt dis] fmt dis show ?thesis
    by (simp add: mkGlobalId_def)
qed

theorem globalId_unique_witness:
  "\<exists>r s f. run onePageSite offline 0 ''T'' ''/w'' Map.empty (Some ''https://x'')
             = Some (Inr (r, s, f)) \<and>
           map globalId (stories r) = [''p1_1'', ''p1_2''] \<and>
           distinct (map globalId (stories r))"
proof -
  have "\<exists>r s f. run onePageSite offline 0 ''T'' ''/w'' Map.empty (Some ''https://x'')
             = Some (Inr (r, s, f)) \<and> map globalId (stories r) = [''p1_1'', ''p1_2'']"
    by (simp add: run_eval)
  then obtain r s f where
    a: "run onePageSite offline 0 ''T'' ''/w'' Map.empty (Some ''https://x'') = Some (Inr (r, s, f))"
    and b: "map globalId (stories r) = [''p1_1'', ''p1_2'']" by (elim exE conjE)
  from globalId_unique [OF a] have c: "distinct (map globalId (stories r))"
    by (rule conjunct1)
  show ?thesis by (intro exI conjI) (rule a, rule b, rule c)
qed

text \<open>
  C8. In the metadata of every completed run the per-page counts add up to
  \<open>totalStories\<close>, which is the number of records in the dataset; the pages listed are
  distinct, and the count of a page is the number of records found on it.
\<close>

theorem storiesPerPage_sum:
  assumes "run render net fuel now cwd fs env = Some (Inr (r, s, fs'))"
  shows "sum_list (map snd (storiesPerPage (metadata r))) = totalStories (metadata r) \<and>
         totalStories (metadata r) = length (stories r) \<and>
         distinct (map fst (storiesPerPage (metadata r))) \<and>
         map_of (storiesPerPage (metadata r)) p =
           (if filter (\<lambda>st. page st = p) (stories r) = [] then None
            else Some (length (filter (\<lambda>st. page st = p) (stories r))))"
proof -
  from assms obtain url where
    "r = paginatedResults (currentPage s) (stories r) now url"
    by (rule run_completed)
  then have m: "storiesPerPage (metadata r) = storiesPerPageOf (stories r)"
    "totalStories (metadata r) = length (stories r)"
    by (metis metadata.select_convs results.select_convs(1) paginatedResults_def)+
  have "sum_list (map snd (storiesPerPageOf (stories r))) = length (stories r)"
    by (simp add: storiesPerPageOf_def sum_foldl_countPage)
  moreover have "distinct (map fst (storiesPerPageOf (stories r)))"
    by (simp add: storiesPerPageOf_def distinct_foldl_countPage)
  ultimately show ?thesis
    using m by (simp only: storiesPerPageOf_lookup simp_thms)
qed

theorem storiesPerPage_sum_witness:
  "\<exists>r s f. run onePageSite offline 0 ''T'' ''/w'' Map.empty (Some ''https://x'')
             = Some (Inr (r, s, f)) \<and>
           storiesPerPage (metadata r) = [(1, 2)] \<and>
           sum_list (map snd (storiesPerPage (metadata r))) = totalStories (metadata r) \<and>
           totalStories (metadata r) = length (stories r)"
proof -
  have "\<exists>r s f. run onePageSite offline 0 ''T'' ''/w'' Map.empty (Some ''https://x'')
             = Some (Inr (r, s, f)) \<and> storiesPerPage (metadata r) = [(1, 2)]"
    by (simp add: run_eval)
  then obtain r s f where
    a: "run onePageSite offline 0 ''T'' ''/w'' Map.empty (Some ''https://x'') = Some (Inr (r, s, f))"
    and b: "storiesPerPage (metadata r) = [(1, 2)]" by (elim exE conjE)
  from storiesPerPage_sum [OF a, of 1] have
    c: "sum_list (map snd (storiesPerPage (metadata r))) = totalStories (metadata r)" and
    d: "totalStories (metadata r) = length (stories r)"
    by simp_all
  show ?thesis by (intro exI conjI) (rule a, rule b, rule c, rule d)
qed

section \<open>Where the records of a run come from\<close>

lemma includesStr_nonempty: "includesStr h p \<Longrightarrow> p \<noteq> [] \<Longrightarrow> h \<noteq> []"
  by (cases h) simp_all

lemma storyLink_Some:
  "storyLink c = Some h \<Longrightarrow> h \<in> set (anchors c) \<and> includesStr h ''/customers/story/'' \<and> h \<noteq> []"
  unfolding storyLink_def
  by (auto simp: find_Some_iff dest: includesStr_nonempty)

lemma extractCard_None:
  "extractCard n now i c = None \<longleftrightarrow> titleElement c = None \<or> storyLink c = None"
  by (simp add: extractCard_def split: option.splits)

lemma pageLoop_origin:
  assumes "pageLoop render now url initialState = Inr s"
  shows "\<forall>st \<in> set (allStories s). \<exists>n doc i c. render (pageUrl url n) = Some doc \<and>
           c \<in> set (cards doc) \<and> extractCard n now i c = Some st"
proof (rule pageLoop_rule [OF assms, where
      I = "\<lambda>s. \<forall>st \<in> set (allStories s). \<exists>n doc i c. render (pageUrl url n) = Some doc \<and>
           c \<in> set (cards doc) \<and> extractCard n now i c = Some st"])
  show "\<forall>st \<in> set (allStories initialState). \<exists>n doc i c. render (pageUrl url n) = Some doc \<and>
           c \<in> set (cards doc) \<and> extractCard n now i c = Some st"
    by (simp add: initialState_def)
next
  fix s :: loop_state and doc :: document
  assume inv: "\<forall>st \<in> set (allStories s). \<exists>n doc i c. render (pageUrl url n) = Some doc \<and>
           c \<in> set (cards doc) \<and> extractCard n now i c = Some st"
    and doc: "render (pageUrl url (currentPage s)) = Some doc"
  have "\<And>st. st \<in> set (pageStories (currentPage s) now doc) \<Longrightarrow>
      \<exists>n doc i c. render (pageUrl url n) = Some doc \<and>
           c \<in> set (cards doc) \<and> extractCard n now i c = Some st"
    unfolding pageStories_def using extractFrom_mem doc by blast
  with inv show "\<forall>st \<in> set (allStories (advance (collect (loaded s)
        (pageStories (currentPage s) now doc)) (paginationInfo doc))).
      \<exists>n doc i c. render (pageUrl url n) = Some doc \<and>
           c \<in> set (cards doc) \<and> extractCard n now i c = Some st"
    by auto
next
  fix s :: loop_state and doc :: document
  assume "\<forall>st \<in> set (allStories s). \<exists>n doc i c. render (pageUrl url n) = Some doc \<and>
           c \<in> set (cards doc) \<and> extractCard n now i c = Some st"
  then show "\<forall>st \<in> set (allStories (loaded s)). \<exists>n doc i c. render (pageUrl url n) = Some doc \<and>
           c \<in> set (cards doc) \<and> extractCard n now i c = Some st"
    by simp
next
  fix s :: loop_state
  assume "\<forall>st \<in> set (allStories s). \<exists>n doc i c. render (pageUrl url n) = Some doc \<and>
           c \<in> set (cards doc) \<and> extractCard n now i c = Some st"
  then show "\<forall>st \<in> set (allStories s). \<exists>n doc i c. render (pageUrl url n) = Some doc \<and>
           c \<in> set (cards doc) \<and> extractCard n now i c = Some st" .
qed

text \<open>The pages loaded by the loop, against its page counter: they are the pages from 1
  up to the counter, except that after five pages that all ask for a next one the counter
  stands at six.\<close>

lemma pageLoop_pages:
  assumes "pageLoop render now url initialState = Inr s"
  shows "(currentPage s \<le> pageCap \<and> rendered s = [1..<Suc (currentPage s)]) \<or>
         (currentPage s = Suc pageCap \<and> hasNextPage s \<and> rendered s = [1..<Suc pageCap] \<and>
          extracted s = [1..<Suc pageCap])"
proof (rule pageLoop_rule [OF assms, where
      I = "\<lambda>s. (hasNextPage s \<longrightarrow> 1 \<le> currentPage s \<and> currentPage s \<le> Suc pageCap \<and>
                   rendered s = [1..<currentPage s] \<and> extracted s = [1..<currentPage s]) \<and>
               (\<not> hasNextPage s \<longrightarrow> currentPage s \<le> pageCap \<and>
                   rendered s = [1..<Suc (currentPage s)])"])
  show "(hasNextPage initialState \<longrightarrow> 1 \<le> currentPage initialState \<and>
           currentPage initialState \<le> Suc pageCap \<and>
           rendered initialState = [1..<currentPage initialState] \<and>
           extracted initialState = [1..<currentPage initialState]) \<and>
        (\<not> hasNextPage initialState \<longrightarrow> currentPage initialState \<le> pageCap \<and>
           rendered initialState = [1..<Suc (currentPage initialState)])"
    by (simp add: initialState_def)
next
  fix s :: loop_state and doc :: document
  let ?n = "advance (collect (loaded s) (pageStories (currentPage s) now doc)) (paginationInfo doc)"
  assume "(hasNextPage s \<longrightarrow> 1 \<le> currentPage s \<and> currentPage s \<le> Suc pageCap \<and>
                   rendered s = [1..<currentPage s] \<and> extracted s = [1..<currentPage s]) \<and>
               (\<not> hasNextPage s \<longrightarrow> currentPage s \<le> pageCap \<and>
                   rendered s = [1..<Suc (currentPage s)])"
    and "hasNextPage s" "currentPage s \<le> pageCap"
  then show "(hasNextPage ?n \<longrightarrow> 1 \<le> currentPage ?n \<and> currentPage ?n \<le> Suc pageCap \<and>
                   rendered ?n = [1..<currentPage ?n] \<and> extracted ?n = [1..<currentPage ?n]) \<and>
               (\<not> hasNextPage ?n \<longrightarrow> currentPage ?n \<le> pageCap \<and>
                   rendered ?n = [1..<Suc (currentPage ?n)])"
    by auto
next
  fix s :: loop_state and doc :: document
  assume "(hasNextPage s \<longrightarrow> 1 \<le> currentPage s \<and> currentPage s \<le> Suc pageCap \<and>
                   rendered s = [1..<currentPage s] \<and> extracted s = [1..<currentPage s]) \<and>
               (\<not> hasNextPage s \<longrightarrow> currentPage s \<le> pageCap \<and>
                   rendered s = [1..<Suc (currentPage s)])"
    and "hasNextPage s" "currentPage s \<le> pageCap"
  then show "(currentPage (loaded s) \<le> pageCap \<and>
          rendered (loaded s) = [1..<Suc (currentPage (loaded s))]) \<or>
         (currentPage (loaded s) = Suc pageCap \<and> hasNextPage (loaded s) \<and>
          rendered (loaded s) = [1..<Suc pageCap] \<and> extracted (loaded s) = [1..<Suc pageCap])"
    by auto
next
  fix s :: loop_state
  assume "(hasNextPage s \<longrightarrow> 1 \<le> currentPage s \<and> currentPage s \<le> Suc pageCap \<and>
                   rendered s = [1..<currentPage s] \<and> extracted s = [1..<currentPage s]) \<and>
               (\<not> hasNextPage s \<longrightarrow> currentPage s \<le> pageCap \<and>
                   rendered s = [1..<Suc (currentPage s)])"
    and "\<not> (hasNextPage s \<and> currentPage s \<le> pageCap)"
  then show "(currentPage s \<le> pageCap \<and> rendered s = [1..<Suc (currentPage s)]) \<or>
         (currentPage s = Suc pageCap \<and> hasNextPage s \<and> rendered s = [1..<Suc pageCap] \<and>
          extracted s = [1..<Suc pageCap])"
    by (cases "currentPage s = Suc pageCap") auto
qed

section \<open>Titles and story links of the records\<close>

text \<open>
  C3, as stated, fails: a card whose title element holds only white space passes the
  guard \<^verbatim>\<open>titleElement && storyLink\<close>, and its record is emitted with an empty title.
\<close>

theorem empty_title_emitted:
  "run blankTitleSite offline 0 ''T'' ''/w'' Map.empty (Some ''https://x'') =
   Some (Inr (\<lparr>metadata = \<lparr>totalPages = 1, totalStories = 1, extractionDate = ''T'',
                             baseUrl = ''https://x'', storiesPerPage = [(1, 1)]\<rparr>,
               stories = [\<lparr>page = 1, positionOnPage = 1, globalId = ''p1_1'', title = [],
                           industry = ''Insurance'',
                           storyUrl = ''/en-us/customers/story/1-contoso'', logo = [],
                           logoLocal = None, headerImage = [], headerImageAlt = [],
                           headerImageLocal = None, microsoftProducts = [],
                           extractedAt = ''T''\<rparr>]\<rparr>,
              \<lparr>allStories = [\<lparr>page = 1, positionOnPage = 1, globalId = ''p1_1'', title = [],
                           industry = ''Insurance'',
                           storyUrl = ''/en-us/customers/story/1-contoso'', logo = [],
                           logoLocal = None, headerImage = [], headerImageAlt = [],
                           headerImageLocal = None, microsoftProducts = [],
                           extractedAt = ''T''\<rparr>],
               currentPage = 1, hasNextPage = False, rendered = [1], extracted = [1]\<rparr>,
              Map.empty))"
  by (simp add: run_eval)

text \<open>
  C3, amended. Every record of a completed run has a non-empty story URL, which contains
  \<^verbatim>\<open>/customers/story/\<close>; the record comes from a card of a loaded page that has a title
  element and a story link, its title is the trimmed text of that title element (which
  may be empty) and its story URL is the link's target. A card is dropped exactly when
  it has no title element or no story link.
\<close>

theorem records_from_cards:
  assumes "run render net fuel now cwd fs env = Some (Inr (r, s, fs'))"
    and "st \<in> set (stories r)"
  shows "storyUrl st \<noteq> [] \<and> includesStr (storyUrl st) ''/customers/story/'' \<and>
         (\<exists>url n doc c t. env = Some url \<and> render (pageUrl url n) = Some doc \<and>
            c \<in> set (cards doc) \<and> titleElement c = Some t \<and> title st = trim t \<and>
            storyLink c = Some (storyUrl st)) \<and>
         (\<forall>n i c. (extractCard n now i c = None) = (titleElement c = None \<or> storyLink c = None))"
proof -
  from assms(1) obtain url where env: "env = Some url" and
    loop: "pageLoop render now url initialState = Inr s" and
    dl: "downloadAll fuel net (pathJoin cwd ''media'') fs (allStories s) = Some (stories r, fs')"
    by (rule run_completed)
  note keep = downloadAll_fields [OF dl]
  from assms(2) obtain i where i: "i < length (stories r)" "st = stories r ! i"
    by (auto simp: in_set_conv_nth)
  let ?a = "allStories s ! i"
  have "length (stories r) = length (allStories s)"
    using keep by (metis length_map)
  with i have mem: "?a \<in> set (allStories s)" by simp
  have same: "title st = title ?a" "storyUrl st = storyUrl ?a"
    using keep i map_eq_nth by blast+
  from pageLoop_origin [OF loop] mem obtain n doc j c where
    doc: "render (pageUrl url n) = Some doc" "c \<in> set (cards doc)" and
    ex: "extractCard n now j c = Some ?a" by blast
  from extractCard_Some [OF ex] obtain t where
    t: "titleElement c = Some t" "title ?a = trim t" "storyLink c = Some (storyUrl ?a)" by blast
  from storyLink_Some [OF t(3)] have
    link: "storyUrl ?a \<noteq> []" "includesStr (storyUrl ?a) ''/customers/story/''" by simp_all
  have "\<exists>url n doc c t. env = Some url \<and> render (pageUrl url n) = Some doc \<and>
            c \<in> set (cards doc) \<and> titleElement c = Some t \<and> title st = trim t \<and>
            storyLink c = Some (storyUrl st)"
    using env doc t same by auto
  with link same extractCard_None show ?thesis by simp
qed

theorem records_from_cards_witness:
  "\<exists>r s f st. run onePageSite offline 0 ''T'' ''/w'' Map.empty (Some ''https://x'')
                = Some (Inr (r, s, f)) \<and>
              st \<in> set (stories r) \<and> title st = ''Contoso speeds up claims'' \<and>
              storyUrl st \<noteq> [] \<and> includesStr (storyUrl st) ''/customers/story/''"
proof -
  have "\<exists>r s f. run onePageSite offline 0 ''T'' ''/w'' Map.empty (Some ''https://x'')
             = Some (Inr (r, s, f)) \<and>
           map title (stories r) = [''Contoso speeds up claims'', ''Contoso speeds up claims'']"
    by (simp add: run_eval)
  then obtain r s f where
    a: "run onePageSite offline 0 ''T'' ''/w'' Map.empty (Some ''https://x'') = Some (Inr (r, s, f))"
    and b: "map title (stories r) = [''Contoso speeds up claims'', ''Contoso speeds up claims'']"
    by (elim exE conjE)
  from b have ne: "stories r \<noteq> []" by auto
  then have c: "hd (stories r) \<in> set (stories r)" by simp
  from b ne have d: "title (hd (stories r)) = ''Contoso speeds up claims''"
    by (cases "stories r") auto
  from records_from_cards [OF a c] have
    e: "storyUrl (hd (stories r)) \<noteq> []" and
    g: "includesStr (storyUrl (hd (stories r))) ''/customers/story/''"
    by simp_all
  show ?thesis by (intro exI conjI) (rule a, rule c, rule d, rule e, rule g)
qed

section \<open>The page count at the page cap\<close>

text \<open>
  C2 at the page cap. On a site whose every page shows a card and no pagination element,
  the loop loads and extracts pages 1 to 5 and leaves its counter at 6; the metadata
  reports six pages where five were visited.
\<close>

theorem totalPages_after_cap:
  "\<exists>r s f. run endlessSite offline 0 ''T'' ''/w'' Map.empty (Some ''https://x'')
             = Some (Inr (r, s, f)) \<and>
           totalPages (metadata r) = 6 \<and>
           rendered s = [1, 2, 3, 4, 5] \<and> extracted s = [1, 2, 3, 4, 5] \<and>
           storiesPerPage (metadata r) = [(1, 1), (2, 1), (3, 1), (4, 1), (5, 1)]"
  by (simp add: run_eval)

section \<open>Outcomes of the asset fetcher\<close>

lemma isRedirect_iff:
  "isRedirect net (Some u) \<longleftrightarrow>
     \<not> nothingToFetch (Some u) \<and> (\<exists>r. net u = Response r \<and> (statusCode r = 301 \<or> statusCode r = 302))"
  by (cases "net u") (simp_all add: isRedirect_def)

lemma downloadImage_direct:
  "\<not> isRedirect net url \<Longrightarrow>
   downloadImage (Suc m) net fs url path = downloadImage (Suc 0) net fs url path"
proof (cases url)
  case None
  then show ?thesis by simp
next
  case (Some u)
  assume "\<not> isRedirect net url"
  with Some have "nothingToFetch (Some u) \<or>
      (\<forall>r. net u = Response r \<longrightarrow> statusCode r \<noteq> 301 \<and> statusCode r \<noteq> 302)"
    by (simp add: isRedirect_iff)
  with Some show ?thesis
    by (cases "net u") auto
qed


lemma downloadImage_hop:
  assumes "\<not> nothingToFetch (Some u)" "net u = Response r"
    "statusCode r = 301 \<or> statusCode r = 302"
  shows "downloadImage (Suc fuel) net fs (Some u) path = downloadImage fuel net fs (location r) path"
proof -
  from assms(3) have "statusCode r \<noteq> 200" by auto
  with assms show ?thesis by simp
qed

lemma downloadImage_follows:
  "downloadImage fuel net fs url path = Some out \<Longrightarrow>
   \<exists>target. redirects net url target \<and> \<not> isRedirect net target \<and>
            downloadImage (Suc 0) net fs target path = Some out"
proof (induction fuel arbitrary: url)
  case 0
  have "\<not> isRedirect net url"
  proof (cases url)
    case None
    then show ?thesis by (simp add: isRedirect_def)
  next
    case (Some u)
    with "0.prems" have "nothingToFetch (Some u)" by (simp split: if_splits)
    with Some show ?thesis by (simp add: isRedirect_iff)
  qed
  moreover have "downloadImage (Suc 0) net fs url path = Some out"
  proof (cases url)
    case None
    with "0.prems" show ?thesis by simp
  next
    case (Some u)
    with "0.prems" have "nothingToFetch (Some u)" "out = (Resolved None, fs)"
      by (simp_all split: if_splits)
    with Some show ?thesis by simp
  qed
  ultimately show ?case using redirects.arrived by blast
next
  case (Suc fuel)
  show ?case
  proof (cases "isRedirect net url")
    case False
    then have "downloadImage (Suc fuel) net fs url path = downloadImage (Suc 0) net fs url path"
      by (rule downloadImage_direct)
    with Suc.prems have "downloadImage (Suc 0) net fs url path = Some out"
      by simp
    with False redirects.arrived show ?thesis by blast
  next
    case True
    then obtain u where u: "url = Some u" by (cases url) (simp_all add: isRedirect_def)
    with True obtain r where r: "\<not> nothingToFetch (Some u)" "net u = Response r"
      "statusCode r = 301 \<or> statusCode r = 302"
      using isRedirect_iff by blast
    have "downloadImage (Suc fuel) net fs (Some u) path
        = downloadImage fuel net fs (location r) path"
      using r by (rule downloadImage_hop)
    with Suc.prems u have "downloadImage fuel net fs (location r) path = Some out"
      by simp
    from Suc.IH [OF this] obtain target where
      t: "redirects net (location r) target" "\<not> isRedirect net target"
        "downloadImage (Suc 0) net fs target path = Some out"
      by blast
    from True u have "isRedirect net (Some u)" by simp
    from redirects.hop [OF this r(2) t(1)] t(2,3) u show ?thesis by blast
  qed
qed


lemma direct_outcome:
  assumes "\<not> isRedirect net target"
    and "downloadImage (Suc 0) net fs target path = Some (res, fs')"
  shows "((\<exists>e. res = Rejected e) \<longleftrightarrow>
           (\<exists>u. target = Some u \<and> \<not> nothingToFetch target \<and>
              (net u = RequestError \<or> net u = RequestTimeout \<or>
               (\<exists>r. net u = Response r \<and>
                  (statusCode r \<noteq> 200 \<and> statusCode r \<noteq> 301 \<and> statusCode r \<noteq> 302 \<or>
                   statusCode r = 200 \<and> body r \<noteq> Finish)))))"
    and "(\<exists>u r. target = Some u \<and> \<not> nothingToFetch target \<and> net u = Response r \<and>
              statusCode r = 200 \<and> body r = Finish)
          \<longrightarrow> res = Resolved (Some path) \<and> fs' = fs(path \<mapsto> Complete)"
    and "nothingToFetch target \<longrightarrow> res = Resolved None \<and> fs' = fs"
proof -
  show "nothingToFetch target \<longrightarrow> res = Resolved None \<and> fs' = fs"
    using assms(2) by (cases target) auto
  show "(\<exists>u r. target = Some u \<and> \<not> nothingToFetch target \<and> net u = Response r \<and>
              statusCode r = 200 \<and> body r = Finish)
          \<longrightarrow> res = Resolved (Some path) \<and> fs' = fs(path \<mapsto> Complete)"
    using assms(2) by (auto simp: onResponse200_def)
  show "((\<exists>e. res = Rejected e) \<longleftrightarrow>
           (\<exists>u. target = Some u \<and> \<not> nothingToFetch target \<and>
              (net u = RequestError \<or> net u = RequestTimeout \<or>
               (\<exists>r. net u = Response r \<and>
                  (statusCode r \<noteq> 200 \<and> statusCode r \<noteq> 301 \<and> statusCode r \<noteq> 302 \<or>
                   statusCode r = 200 \<and> body r \<noteq> Finish)))))"
  proof (cases target)
    case None
    with assms(2) show ?thesis by auto
  next
    case (Some u)
    show ?thesis
    proof (cases "nothingToFetch (Some u)")
      case True
      with Some assms(2) show ?thesis by auto
    next
      case False
      show ?thesis
      proof (cases "net u")
        case (Response r)
        with assms(1) Some False have nr: "statusCode r \<noteq> 301" "statusCode r \<noteq> 302"
          by (simp_all add: isRedirect_iff)
        show ?thesis
        proof (cases "statusCode r = 200")
          case True
          with Some False Response assms(2) show ?thesis
            by (cases "body r") (auto simp: onResponse200_def)
        next
          case ns: False
          with Some False Response nr assms(2) show ?thesis by auto
        qed
      next
        case RequestError
        with Some False assms(2) show ?thesis by auto
      next
        case RequestTimeout
        with Some False assms(2) show ?thesis by auto
      qed
    qed
  qed
qed

section \<open>Local paths without a file\<close>

text \<open>A download block sets its field only when the promise resolved; then either the
  complete file is at the destination, or the redirects led to a target with nothing to
  fetch and storage is as before.\<close>

lemma tryDownload_set:
  assumes "tryDownload fuel net dir fs url fname = Some (Some p, fs')"
  shows "p = ''media/'' @ fname \<and>
         (fs' (pathJoin dir fname) = Some Complete \<or>
          (\<exists>target. redirects net (Some url) target \<and> nothingToFetch target \<and> fs' = fs))"
proof -
  from assms obtain v where
    d: "downloadImage fuel net fs (Some url) (pathJoin dir fname) = Some (Resolved v, fs')"
    and p: "p = ''media/'' @ fname"
    by (auto simp: tryDownload_def split: option.splits promise.splits)
  from downloadImage_follows [OF d] obtain target where
    t: "redirects net (Some url) target" "\<not> isRedirect net target"
      "downloadImage (Suc 0) net fs target (pathJoin dir fname) = Some (Resolved v, fs')"
    by blast
  have "fs' (pathJoin dir fname) = Some Complete \<or> (nothingToFetch target \<and> fs' = fs)"
  proof (cases "nothingToFetch target")
    case True
    with direct_outcome(3) [OF t(2,3)] show ?thesis by simp
  next
    case False
    then obtain u where u: "target = Some u" by (cases target) (simp_all add: nothingToFetch_def)
    from t(2) u False have nr: "\<And>r. net u = Response r \<Longrightarrow>
        statusCode r \<noteq> 301 \<and> statusCode r \<noteq> 302"
      by (simp add: isRedirect_iff)
    from direct_outcome(1) [OF t(2,3)] False u have
      ok: "net u \<noteq> RequestError" "net u \<noteq> RequestTimeout"
        "\<And>r. net u = Response r \<Longrightarrow>
           \<not> (statusCode r \<noteq> 200 \<and> statusCode r \<noteq> 301 \<and> statusCode r \<noteq> 302) \<and>
           \<not> (statusCode r = 200 \<and> body r \<noteq> Finish)"
      by simp_all
    then obtain r where r: "net u = Response r" by (cases "net u") simp_all
    with nr ok(3) have "statusCode r = 200" "body r = Finish" by blast+
    with direct_outcome(2) [OF t(2,3)] False u r show ?thesis by simp
  qed
  with t(1) p show ?thesis by blast
qed

lemma tryDownload_unset:
  "tryDownload fuel net dir fs url fname = Some (None, fs') \<longleftrightarrow>
     (\<exists>e. downloadImage fuel net fs (Some url) (pathJoin dir fname) = Some (Rejected e, fs'))"
  by (auto simp: tryDownload_def split: option.splits promise.splits)

text \<open>
  C1 on an inline image. With the network unreachable and empty storage, the record of a
  card whose logo is a \<^verbatim>\<open>data:\<close> URL leaves the run with \<open>logoLocal\<close> set, and storage
  is still empty: \<open>downloadImage\<close> resolved with \<^verbatim>\<open>null\<close> and the caller did not look.
\<close>

theorem inline_logo_marked_local:
  "run inlineLogoSite offline 0 ''T'' ''/w'' Map.empty (Some ''https://x'') =
   Some (Inr (\<lparr>metadata = \<lparr>totalPages = 1, totalStories = 1, extractionDate = ''T'',
                             baseUrl = ''https://x'', storiesPerPage = [(1, 1)]\<rparr>,
               stories = [\<lparr>page = 1, positionOnPage = 1, globalId = ''p1_1'',
                           title = ''Contoso speeds up claims'', industry = ''Insurance'',
                           storyUrl = ''/en-us/customers/story/1-contoso'',
                           logo = ''data:image/png;base64,AAAA'',
                           logoLocal = Some ''media/p1_1_logo.jpg'',
                           headerImage = [], headerImageAlt = [],
                           headerImageLocal = None, microsoftProducts = [],
                           extractedAt = ''T''\<rparr>]\<rparr>,
              \<lparr>allStories = [\<lparr>page = 1, positionOnPage = 1, globalId = ''p1_1'',
                           title = ''Contoso speeds up claims'', industry = ''Insurance'',
                           storyUrl = ''/en-us/customers/story/1-contoso'',
                           logo = ''data:image/png;base64,AAAA'', logoLocal = None,
                           headerImage = [], headerImageAlt = [],
                           headerImageLocal = None, microsoftProducts = [],
                           extractedAt = ''T''\<rparr>],
               currentPage = 1, hasNextPage = False, rendered = [1], extracted = [1]\<rparr>,
              Map.empty))"
  by (simp add: run_eval)

section \<open>Files left behind by a failed download\<close>

text \<open>
  C5 on a stalled transfer. A 200 response whose body stalls until the timeout fires
  rejects with the timeout and leaves the partly written destination in storage; a write
  error on the same response removes it.
\<close>

theorem stalled_download_leaves_file:
  "downloadImage 1 stalledNet Map.empty (Some ''https://cdn.example/logo.png'')
     ''/w/media/p1_1_logo.png''
     = Some (Rejected DownloadTimeout, [''/w/media/p1_1_logo.png'' \<mapsto> Partial]) \<and>
   downloadImage 1 brokenDiskNet Map.empty (Some ''https://cdn.example/logo.png'')
     ''/w/media/p1_1_logo.png''
     = Some (Rejected WriteFailed, Map.empty)"
  by (simp add: example_defs download_defs startsWith_def)

section \<open>Facts about the pagination check\<close>

lemma showNat_Cons: "\<exists>c cs. showNat n = c # cs \<and> isDigit c"
  using showNat_nonempty [of n] showNat_digits [of _ n]
  by (cases "showNat n") auto

lemma digit_plain:
  "isDigit c \<Longrightarrow> \<not> isSpace c \<and> c \<noteq> CHR ''-'' \<and> c \<noteq> CHR ''+'' \<and> c \<noteq> CHR ''x'' \<and> c \<noteq> CHR ''X''
     \<and> c \<noteq> CHR '' ''"
  by (auto simp: isDigit_def digitChars_def isSpace_def)

lemma showNat_not_hex:
  "\<not> startsWith (showNat n) [a, CHR ''x'']" "\<not> startsWith (showNat n) [a, CHR ''X'']"
proof -
  have no: "\<not> startsWith (showNat n) [a, c]" if "\<not> isDigit c" for c
  proof
    assume "startsWith (showNat n) [a, c]"
    then have e: "take (length [a, c]) (showNat n) = [a, c]"
      unfolding startsWith_def .
    have "c \<in> set [a, c]" by simp
    then have "c \<in> set (take (length [a, c]) (showNat n))" by (simp only: e)
    then have "isDigit c" using showNat_digits in_set_takeD by metis
    with that show False by simp
  qed
  show "\<not> startsWith (showNat n) [a, CHR ''x'']" "\<not> startsWith (showNat n) [a, CHR ''X'']"
    using no digit_plain by blast+
qed

lemma parseMagnitude_showNat: "parseMagnitude (showNat n) = Some n"
proof -
  have "digitsPrefix 10 (showNat n) = map (\<lambda>c. the (digitValue 10 c)) (showNat n)"
    using digitsPrefix_showNat [of n "[]"] by simp
  then show ?thesis
    using showNat_not_hex [of n] showNat_nonempty [of n]
    by (simp add: parseMagnitude_def digitsValue_showNat)
qed

lemma parseInt_showNat: "parseInt (showNat n) = Num (int n)"
proof -
  obtain c cs where s: "showNat n = c # cs" "isDigit c"
    using showNat_Cons by blast
  with digit_plain [of c] have "dropWhile isSpace (showNat n) = showNat n" by simp
  moreover from s digit_plain [of c] have
    "(case showNat n of c # cs \<Rightarrow> if c = CHR ''-'' then (True, cs)
                                     else if c = CHR ''+'' then (False, cs)
                                     else (False, showNat n)
                         | [] \<Rightarrow> (False, showNat n)) = (False, showNat n)"
    by simp
  ultimately show ?thesis
    by (simp add: parseInt_def parseMagnitude_showNat)
qed

lemma searchAnnouncement_page_of:
  "searchAnnouncement (''Page '' @ showNat x @ '' of '' @ showNat y) = Some (showNat x, showNat y)"
proof -
  have dx: "\<And>c. c \<in> set (showNat x) \<Longrightarrow> isDigit c" and dy: "\<forall>c \<in> set (showNat y). isDigit c"
    using showNat_digits by blast+
  have sp: "\<not> isDigit (CHR '' '')" using digit_plain by blast
  have t1: "takeWhile isDigit (showNat x @ CHR '' '' # r) = showNat x" for r
    using dx sp by (simp add: takeWhile_append2)
  have t2: "dropWhile isDigit (showNat x @ CHR '' '' # r) = CHR '' '' # r" for r
    using dx sp by (simp add: dropWhile_append2)
  have t3: "takeWhile isDigit (showNat y) = showNat y"
    using dy by (simp add: takeWhile_eq_all_conv)
  have "matchAnnouncementAt (''Page '' @ showNat x @ '' of '' @ showNat y)
          = Some (showNat x, showNat y)"
    by (simp add: matchAnnouncementAt_def startsWith_def t1 t2 t3 showNat_nonempty Let_def)
  then show ?thesis by simp
qed

lemma announcement_info:
  assumes "\<not> (isPaginationHidden doc \<and> allResultsOnOnePage doc)"
    and "paginationElement doc = Some (''Page '' @ showNat x @ '' of '' @ showNat y)"
  shows "paginationInfo doc =
           \<lparr>hasNext = x < y, currentPage = Some (Num (int x)), totalPages = Some (Num (int y)),
            singlePage = Some (y = 1), showingResults = showingText doc,
            reason = ''pagination announcement''\<rparr>"
proof -
  from assms(2) have "searchAnnouncement (paginationText doc) = Some (showNat x, showNat y)"
    by (simp only: paginationText_def option.case searchAnnouncement_page_of)
  with assms(1) show ?thesis
    by (simp add: paginationInfo_def parseInt_showNat)
qed

text \<open>The loop's own branches after an announcement: it goes on exactly when the
  announcement asks for it and the loop's page counter is below the announced total.\<close>

lemma continues_announcement:
  assumes "\<not> (isPaginationHidden doc \<and> allResultsOnOnePage doc)"
    and "paginationElement doc = Some (''Page '' @ showNat x @ '' of '' @ showNat y)"
  shows "continues (paginationInfo doc) cur = (x < y \<and> cur < y \<and> y \<noteq> 1)"
  by (auto simp: announcement_info [OF assms] continues_def)





section \<open>Redirects and failures of the asset fetcher\<close>




end
